theory Spec2Isabelle
  imports Main "HOL-Library.AList"
begin

section \<open>Strings of the autocomplete engine\<close>

text \<open>
  The engine of \<^verbatim>\<open>autocompleteService.ts\<close> works on JavaScript strings. A string is modelled
  as a \<^typ>\<open>string\<close>, one \<^typ>\<open>char\<close> per UTF-16 code unit, for the code units below 256.
  Among these the characters that \<^verbatim>\<open>\s\<close>, \<^verbatim>\<open>trim\<close> and \<^verbatim>\<open>trimEnd\<close> treat as white space are
  tab, line feed, vertical tab, form feed, carriage return, space and the no-break space;
  the line terminators, after which \<^verbatim>\<open>^\<close> matches under the \<^verbatim>\<open>m\<close> flag, are line feed and
  carriage return.

  The source fixes the line break once, from the platform:
  \<^verbatim>\<open>const _ln = isWindows ? allLinebreakSymbols[0] : allLinebreakSymbols[1]\<close>.
  \<^verbatim>\<open>isWindows\<close> is imported from the platform module, so every function that reads
  \<^verbatim>\<open>_ln\<close> takes the flag as its first argument.
\<close>

definition allLinebreakSymbols :: "string list" where
  "allLinebreakSymbols = [[CHR 0x0D, CHR 0x0A], [CHR 0x0A]]"

definition ln' :: "bool \<Rightarrow> string" where
  "ln' isWindows = (if isWindows then allLinebreakSymbols ! 0 else allLinebreakSymbols ! 1)"

definition isWhitespace :: "char \<Rightarrow> bool" where
  "isWhitespace c \<longleftrightarrow>
     c = CHR 0x09 \<or> c = CHR 0x0A \<or> c = CHR 0x0B \<or> c = CHR 0x0C \<or> c = CHR 0x0D
     \<or> c = CHR 0x20 \<or> c = CHR 0xA0"

definition isLineTerminator :: "char \<Rightarrow> bool" where
  "isLineTerminator c \<longleftrightarrow> c = CHR 0x0A \<or> c = CHR 0x0D"

definition trimStart :: "string \<Rightarrow> string" where
  "trimStart s = dropWhile isWhitespace s"

definition trimEnd :: "string \<Rightarrow> string" where
  "trimEnd s = rev (dropWhile isWhitespace (rev s))"

definition trim :: "string \<Rightarrow> string" where
  "trim s = trimEnd (trimStart s)"

definition startsWith :: "string \<Rightarrow> string \<Rightarrow> bool" where
  "startsWith s p \<longleftrightarrow> take (length p) s = p"

definition endsWith :: "string \<Rightarrow> string \<Rightarrow> bool" where
  "endsWith s p \<longleftrightarrow> length p \<le> length s \<and> drop (length s - length p) s = p"

text \<open>\<^verbatim>\<open>s.indexOf(p)\<close>: the first index at which \<open>p\<close> occurs in \<open>s\<close>, or \<open>-1\<close>.\<close>

fun indexOfFrom :: "string \<Rightarrow> string \<Rightarrow> nat \<Rightarrow> int" where
  "indexOfFrom [] p i = (if p = [] then int i else - 1)"
| "indexOfFrom (c # cs) p i =
     (if startsWith (c # cs) p then int i else indexOfFrom cs p (Suc i))"

definition indexOf :: "string \<Rightarrow> string \<Rightarrow> int" where
  "indexOf s p = indexOfFrom s p 0"

definition includesStr :: "string \<Rightarrow> string \<Rightarrow> bool" where
  "includesStr s p \<longleftrightarrow> 0 \<le> indexOf s p"

text \<open>
  \<^verbatim>\<open>s.lastIndexOf(p)\<close>: the last index at which \<open>p\<close> occurs in \<open>s\<close>, or \<open>-1\<close>; the empty
  string occurs last at the length of \<open>s\<close>.
\<close>

fun lastIndexOfFrom :: "string \<Rightarrow> string \<Rightarrow> nat \<Rightarrow> int \<Rightarrow> int" where
  "lastIndexOfFrom [] p i found = (if p = [] then int i else found)"
| "lastIndexOfFrom (c # cs) p i found =
     lastIndexOfFrom cs p (Suc i) (if startsWith (c # cs) p then int i else found)"

definition lastIndexOf :: "string \<Rightarrow> string \<Rightarrow> int" where
  "lastIndexOf s p = lastIndexOfFrom s p 0 (- 1)"

text \<open>
  \<^verbatim>\<open>s.search(re)\<close> for a regular expression that is one character class: the index of the
  first character in the class, or \<open>-1\<close>.
\<close>

fun searchFrom :: "(char \<Rightarrow> bool) \<Rightarrow> string \<Rightarrow> nat \<Rightarrow> int" where
  "searchFrom P [] i = - 1"
| "searchFrom P (c # cs) i = (if P c then int i else searchFrom P cs (Suc i))"

definition search :: "(char \<Rightarrow> bool) \<Rightarrow> string \<Rightarrow> int" where
  "search P s = searchFrom P s 0"

text \<open>
  \<^verbatim>\<open>xs.slice(start, end)\<close> and \<^verbatim>\<open>xs.slice(start)\<close>, on strings and on arrays alike: a negative
  index counts from the end, and both indices are clamped to the length.
\<close>

definition slice :: "'a list \<Rightarrow> int \<Rightarrow> int \<Rightarrow> 'a list" where
  "slice xs start stop =
     (let n = int (length xs);
          k = (if start < 0 then max (n + start) 0 else min start n);
          e = (if stop < 0 then max (n + stop) 0 else min stop n)
      in take (nat (e - k)) (drop (nat k) xs))"

definition sliceFrom :: "'a list \<Rightarrow> int \<Rightarrow> 'a list" where
  "sliceFrom xs start = slice xs start (int (length xs))"

text \<open>\<^verbatim>\<open>s.substring(a, b)\<close>: negative indices count as 0, and the two are swapped if \<open>a > b\<close>.\<close>

definition substring :: "string \<Rightarrow> int \<Rightarrow> int \<Rightarrow> string" where
  "substring s a b =
     (let n = int (length s);
          a' = min (max a 0) n;
          b' = min (max b 0) n;
          lo = min a' b';
          hi = max a' b'
      in take (nat (hi - lo)) (drop (nat lo) s))"

definition substringFrom :: "string \<Rightarrow> int \<Rightarrow> string" where
  "substringFrom s a = substring s a (int (length s))"

text \<open>
  \<^verbatim>\<open>s.split(sep)\<close> for a nonempty separator, here given as its first character and the rest:
  the pieces between the occurrences of the separator, found from left to right without
  overlap. The result always has at least one piece.
\<close>

fun splitAcc :: "char \<Rightarrow> string \<Rightarrow> string \<Rightarrow> string \<Rightarrow> string list" where
  "splitAcc s0 ss acc [] = [rev acc]"
| "splitAcc s0 ss acc (c # cs) =
     (if c = s0 \<and> startsWith cs ss
      then rev acc # splitAcc s0 ss [] (drop (length ss) cs)
      else splitAcc s0 ss (c # acc) cs)"

definition split :: "string \<Rightarrow> string \<Rightarrow> string list" where
  "split sep s = (case sep of [] \<Rightarrow> map (\<lambda>c. [c]) s | s0 # ss \<Rightarrow> splitAcc s0 ss [] s)"

fun join :: "string \<Rightarrow> string list \<Rightarrow> string" where
  "join sep [] = []"
| "join sep [x] = x"
| "join sep (x # y # ys) = x @ sep @ join sep (y # ys)"

text \<open>\<^verbatim>\<open>str.replace(/\s+/g, '')\<close>\<close>

definition removeAllWhitespace :: "string \<Rightarrow> string" where
  "removeAllWhitespace str = filter (\<lambda>c. \<not> isWhitespace c) str"

text \<open>
  \<^verbatim>\<open>s.replace(/^\s+/gm, '')\<close>: at the start of the string and after every line terminator, the
  longest run of white space (line terminators included) is deleted. The flag says whether
  the scan stands at a line start or inside a run that is being deleted.
\<close>

fun removeLeftTabs :: "bool \<Rightarrow> string \<Rightarrow> string" where
  "removeLeftTabs atStart [] = []"
| "removeLeftTabs atStart (c # cs) =
     (if atStart \<and> isWhitespace c then removeLeftTabs True cs
      else c # removeLeftTabs (isLineTerminator c) cs)"

section \<open>Data model\<close>

datatype AutocompletionPredictionType =
    SingleLineFillMiddle
  | SingleLineRedoSuffix
  | MultiLineStartOnNextLine
  | DoNotPredict

datatype Status = Pending | Finished | Error

text \<open>
  A promise is the state of the JavaScript promise: it settles once, and a later
  \<^verbatim>\<open>resolve\<close> or \<^verbatim>\<open>reject\<close> does nothing.
\<close>

datatype 'a promise = Unsettled | Resolved 'a | Rejected string

definition resolve :: "'a \<Rightarrow> 'a promise \<Rightarrow> 'a promise" where
  "resolve v p = (case p of Unsettled \<Rightarrow> Resolved v | _ \<Rightarrow> p)"

definition reject :: "string \<Rightarrow> 'a promise \<Rightarrow> 'a promise" where
  "reject m p = (case p of Unsettled \<Rightarrow> Rejected m | _ \<Rightarrow> p)"

text \<open>
  The type \<^verbatim>\<open>Autocompletion\<close>. The fields carry the prefix \<open>a_\<close>, since \<open>id\<close>, \<open>prefix\<close>,
  \<open>suffix\<close> and \<open>type\<close> are taken. Times are the milliseconds of \<^verbatim>\<open>Date.now()\<close>.
\<close>

record Autocompletion =
  a_id :: nat
  a_prefix :: string
  a_suffix :: string
  a_llmPrefix :: string
  a_llmSuffix :: string
  a_startTime :: nat
  a_endTime :: "nat option"
  a_status :: Status
  a_type :: AutocompletionPredictionType
  a_llmPromise :: "string promise option"
  a_insertText :: string
  a_requestId :: "string option"
  a_newlineCount :: nat

definition DEBOUNCE_TIME :: nat where "DEBOUNCE_TIME = 500"
definition TIMEOUT_TIME :: nat where "TIMEOUT_TIME = 60000"
definition MAX_CACHE_SIZE :: int where "MAX_CACHE_SIZE = 20"
definition MAX_PENDING_REQUESTS :: nat where "MAX_PENDING_REQUESTS = 2"

section \<open>Matchup engine\<close>

text \<open>\<^verbatim>\<open>removeLeftTabsAndTrimEnds\<close>: trims the end of the prefix to improve the cache hit rate.\<close>

definition removeLeftTabsAndTrimEnds :: "bool \<Rightarrow> string \<Rightarrow> string" where
  "removeLeftTabsAndTrimEnds isWindows s =
     (let trimmedString = trimEnd s;
          trailingEnd = sliceFrom s (int (length trimmedString));
          s1 = (if includesStr trailingEnd (ln' isWindows) then trimmedString @ ln' isWindows else s)
      in removeLeftTabs True s1)"

text \<open>
  \<^verbatim>\<open>getIndex\<close>: the offset of line \<open>line\<close>, column \<open>char\<close> in \<open>str\<close>.
\<close>

definition getIndex :: "bool \<Rightarrow> string \<Rightarrow> int \<Rightarrow> int \<Rightarrow> int" where
  "getIndex isWindows str line char =
     int (length (join (ln' isWindows) (slice (split (ln' isWindows) str) 0 line)))
       + (if line > 0 then 1 else 0) + char"

text \<open>
  \<^verbatim>\<open>getLastLine\<close>: the match of \<^verbatim>\<open>[^${_ln}]*$\<close>, the longest suffix of \<open>s\<close> with no character of
  the line break in it. The expression matches every string, so the \<^verbatim>\<open>''\<close> branch is dead.
\<close>

definition getLastLine :: "bool \<Rightarrow> string \<Rightarrow> string" where
  "getLastLine isWindows s = rev (takeWhile (\<lambda>c. c \<notin> set (ln' isWindows)) (rev s))"

record AutocompletionMatchupBounds =
  startLine :: int
  startCharacter :: int
  startIdx :: int

text \<open>
  \<^verbatim>\<open>getAutocompletionMatchup\<close>; \<open>None\<close> is the source's \<^verbatim>\<open>undefined\<close>. Reading a line of the
  insertion beyond its last one gives \<^verbatim>\<open>undefined\<close>, which the concatenation that follows
  turns into the text \<^verbatim>\<open>undefined\<close>.
\<close>

definition getAutocompletionMatchup ::
  "bool \<Rightarrow> string \<Rightarrow> Autocompletion \<Rightarrow> AutocompletionMatchupBounds option" where
  "getAutocompletionMatchup isWindows pfx autocompletion =
     (let trimmedCurrentPrefix = removeLeftTabsAndTrimEnds isWindows pfx;
          trimmedCompletionPrefix = removeLeftTabsAndTrimEnds isWindows (a_prefix autocompletion);
          trimmedCompletionMiddle =
            removeLeftTabsAndTrimEnds isWindows (a_insertText autocompletion)
      in if length trimmedCurrentPrefix < length trimmedCompletionPrefix then None
         else if \<not> startsWith (trimmedCompletionPrefix @ trimmedCompletionMiddle)
                     trimmedCurrentPrefix then None
         else
           let lineStart = int (length (split (ln' isWindows) trimmedCurrentPrefix))
                             - int (length (split (ln' isWindows) trimmedCompletionPrefix))
           in if lineStart < 0 then None
              else
                let currentPrefixLine = getLastLine isWindows trimmedCurrentPrefix;
                    completionPrefixLine =
                      (if lineStart = 0 then getLastLine isWindows trimmedCompletionPrefix
                       else []);
                    middleLines = split (ln' isWindows) (a_insertText autocompletion);
                    completionMiddleLine =
                      (if nat lineStart < length middleLines then middleLines ! nat lineStart
                       else ''undefined'');
                    fullCompletionLine = completionPrefixLine @ completionMiddleLine;
                    charMatchIdx = indexOf fullCompletionLine currentPrefixLine
                in if charMatchIdx < 0 then None
                   else
                     let character = charMatchIdx + int (length currentPrefixLine)
                                       - int (length completionPrefixLine);
                         startIdx' = getIndex isWindows (a_insertText autocompletion)
                                       lineStart character
                     in Some \<lparr>startLine = lineStart, startCharacter = character,
                              startIdx = startIdx'\<rparr>)"

section \<open>Context extractor\<close>

text \<open>
  The type \<^verbatim>\<open>PrefixAndSuffixInfo\<close>; its fields \<^verbatim>\<open>prefix\<close> and \<^verbatim>\<open>suffix\<close> are \<open>p_prefix\<close> and
  \<open>p_suffix\<close> here.
\<close>

record PrefixAndSuffixInfo =
  p_prefix :: string
  p_suffix :: string
  prefixLines :: "string list"
  suffixLines :: "string list"
  prefixToTheLeftOfCursor :: string
  suffixToTheRightOfCursor :: string

text \<open>
  \<^verbatim>\<open>getPrefixAndSuffixInfo\<close>. The editor's text model is outside the repository: \<open>fullText\<close> is
  what \<^verbatim>\<open>model.getValue(EndOfLinePreference.LF)\<close> returns, the buffer with every line break
  written as a line feed, and \<open>cursorOffset\<close> is what \<^verbatim>\<open>model.getOffsetAt(position)\<close> returns.
\<close>

definition getPrefixAndSuffixInfo :: "bool \<Rightarrow> string \<Rightarrow> int \<Rightarrow> PrefixAndSuffixInfo" where
  "getPrefixAndSuffixInfo isWindows fullText cursorOffset =
     (let pfx = substring fullText 0 cursorOffset;
          sfx = substringFrom fullText cursorOffset;
          pLines = split (ln' isWindows) pfx;
          sLines = split (ln' isWindows) sfx;
          toTheLeft = (case sliceFrom pLines (- 1) of [] \<Rightarrow> [] | l # _ \<Rightarrow> l);
          toTheRight = (case sLines of [] \<Rightarrow> [] | l # _ \<Rightarrow> l)
      in \<lparr>p_prefix = pfx, p_suffix = sfx, prefixLines = pLines, suffixLines = sLines,
          prefixToTheLeftOfCursor = toTheLeft, suffixToTheRightOfCursor = toTheRight\<rparr>)"

section \<open>Postprocessor\<close>

text \<open>The table \<^verbatim>\<open>pairs\<close>, from a closing bracket to its opening bracket.\<close>

definition pairs :: "char \<Rightarrow> char option" where
  "pairs c = (if c = CHR '')'' then Some (CHR ''('')
              else if c = CHR ''}'' then Some (CHR ''{'')
              else if c = CHR '']'' then Some (CHR ''['')
              else None)"

definition isOpening :: "char \<Rightarrow> bool" where
  "isOpening c \<longleftrightarrow> c = CHR ''('' \<or> c = CHR ''{'' \<or> c = CHR ''[''"

definition isClosing :: "char \<Rightarrow> bool" where
  "isClosing c \<longleftrightarrow> c = CHR '')'' \<or> c = CHR ''}'' \<or> c = CHR '']''"

text \<open>
  The first loop of \<^verbatim>\<open>getStringUpToUnbalancedClosingParenthesis\<close>, over the brackets of the
  prefix. The stack is kept with its top first. A closing bracket that does not match the
  top is pushed.
\<close>

fun processBrackets :: "string \<Rightarrow> string \<Rightarrow> string" where
  "processBrackets [] stack = stack"
| "processBrackets (bracket # brackets) stack =
     (if isOpening bracket then processBrackets brackets (bracket # stack)
      else (case stack of
              tp # below \<Rightarrow>
                if Some tp = pairs bracket then processBrackets brackets below
                else processBrackets brackets (bracket # stack)
            | [] \<Rightarrow> processBrackets brackets (bracket # stack)))"

definition seedStack :: "string \<Rightarrow> string" where
  "seedStack pfx =
     (let firstOpenIdx = search isOpening pfx
      in if firstOpenIdx \<noteq> - 1
         then processBrackets
                (filter (\<lambda>c. includesStr ''()[]{}'' [c]) (sliceFrom pfx firstOpenIdx)) []
         else [])"

text \<open>
  The second loop, over the characters of \<open>s\<close>: \<open>i\<close> is the index of the next character
  and \<open>rest\<close> the characters from there on.
\<close>

fun scanClosing :: "string \<Rightarrow> nat \<Rightarrow> string \<Rightarrow> string \<Rightarrow> string" where
  "scanClosing s i stack [] = s"
| "scanClosing s i stack (c # rest) =
     (if isOpening c then scanClosing s (Suc i) (c # stack) rest
      else if isClosing c then
        (case stack of
           [] \<Rightarrow> substring s 0 (int i)
         | tp # below \<Rightarrow>
             if Some tp \<noteq> pairs c then substring s 0 (int i)
             else scanClosing s (Suc i) below rest)
      else scanClosing s (Suc i) stack rest)"

definition getStringUpToUnbalancedClosingParenthesis :: "string \<Rightarrow> string \<Rightarrow> string" where
  "getStringUpToUnbalancedClosingParenthesis s pfx = scanClosing s 0 (seedStack pfx) s"

text \<open>
  The length of the match of \<^verbatim>\<open>^${_ln}+\<close>, or 0: the line break with its last character
  repeated one or more times, at the start of the string.
\<close>

definition numLeadingLn :: "bool \<Rightarrow> string \<Rightarrow> int" where
  "numLeadingLn isWindows s =
     (let front = butlast (ln' isWindows);
          rep = last (ln' isWindows)
      in if startsWith s front
         then (let k = length (takeWhile (\<lambda>c. c = rep) (drop (length front) s))
               in if 0 < k then int (length front + k) else 0)
         else 0)"

text \<open>\<^verbatim>\<open>s[i]\<close>, with \<open>None\<close> for \<^verbatim>\<open>undefined\<close>.\<close>

definition charAt :: "string \<Rightarrow> int \<Rightarrow> char option" where
  "charAt s i = (if 0 \<le> i \<and> i < int (length s) then Some (s ! nat i) else None)"

definition bracketsAndQuotes :: string where
  "bracketsAndQuotes = ''{}()[]<>'' @ [CHR 0x60, CHR 0x27, CHR 0x22]"

text \<open>
  \<^verbatim>\<open>postprocessAutocompletion\<close> moves a start bound and an end bound (exclusive) over the
  stored insertion in four steps, then cuts at the first unbalanced closing bracket. Each
  step of the source is a function here, named after the comment above it.

  First step: if there is space at the start of the completion and the user has added it,
  remove it.
\<close>

definition skipTypedSpace :: "string \<Rightarrow> string \<Rightarrow> int \<Rightarrow> int" where
  "skipTypedSpace toTheLeft generatedMiddle startIdx0 =
     (let charToLeftOfCursor = sliceFrom toTheLeft (- 1);
          userHasAddedASpace =
            (charToLeftOfCursor = [CHR 0x20] \<or> charToLeftOfCursor = [CHR 0x09]);
          rawFirstNonspaceIdx =
            search (\<lambda>c. c \<noteq> CHR 0x09 \<and> c \<noteq> CHR 0x20) (sliceFrom generatedMiddle startIdx0)
      in if rawFirstNonspaceIdx > - 1 \<and> userHasAddedASpace
         then max startIdx0 (rawFirstNonspaceIdx + startIdx0)
         else startIdx0)"

text \<open>Second step: if the user is on a blank line and the generation starts with line
  breaks, remove them.\<close>

definition skipStartingNewlines :: "bool \<Rightarrow> string \<Rightarrow> string \<Rightarrow> string \<Rightarrow> int \<Rightarrow> int" where
  "skipStartingNewlines isWindows toTheLeft toTheRight generatedMiddle startIdx1 =
     (let numStartingNewlines = numLeadingLn isWindows (sliceFrom generatedMiddle startIdx1)
      in if trim toTheLeft = [] \<and> trim toTheRight = [] \<and> numStartingNewlines > 0
         then startIdx1 + numStartingNewlines
         else startIdx1)"

text \<open>Third step: if the generated text matches with the suffix on the current line,
  stop there.\<close>

definition stopAtSuffixMatch ::
  "AutocompletionPredictionType \<Rightarrow> string \<Rightarrow> string \<Rightarrow> int \<Rightarrow> int \<Rightarrow> int" where
  "stopAtSuffixMatch predictionType toTheRight generatedMiddle startIdx2 endIdx0 =
     (if predictionType = SingleLineFillMiddle \<and> trim toTheRight \<noteq> []
      then (let rawMatchIndex =
                  lastIndexOf (sliceFrom generatedMiddle startIdx2) (take 1 (trim toTheRight))
            in if rawMatchIndex > - 1
               then (let matchIdx = rawMatchIndex + startIdx2
                     in case charAt generatedMiddle matchIdx of
                          Some matchChar \<Rightarrow>
                            if matchChar \<in> set bracketsAndQuotes then min endIdx0 matchIdx
                            else endIdx0
                        | None \<Rightarrow> endIdx0)
               else endIdx0)
      else endIdx0)"

text \<open>Fourth step: the condition to complete as a single line completion.\<close>

definition stopAtNewline :: "bool \<Rightarrow> string \<Rightarrow> string \<Rightarrow> string \<Rightarrow> int \<Rightarrow> int \<Rightarrow> int" where
  "stopAtNewline isWindows toTheLeft toTheRight generatedMiddle startIdx2 endIdx1 =
     (let restOfLineToGenerate =
            (case split (ln' isWindows) (sliceFrom generatedMiddle startIdx2) of
               [] \<Rightarrow> [] | l # _ \<Rightarrow> l)
      in if trim toTheLeft \<noteq> [] \<and> trim toTheRight = [] \<and> trim restOfLineToGenerate \<noteq> []
         then (let rawNewlineIdx = indexOf (sliceFrom generatedMiddle startIdx2) (ln' isWindows)
               in if rawNewlineIdx > - 1 then min endIdx1 (rawNewlineIdx + startIdx2)
                  else endIdx1)
         else endIdx1)"

definition postprocessAutocompletion ::
  "bool \<Rightarrow> AutocompletionMatchupBounds \<Rightarrow> Autocompletion \<Rightarrow> PrefixAndSuffixInfo \<Rightarrow> string" where
  "postprocessAutocompletion isWindows autocompletionMatchup autocompletion prefixAndSuffix =
     (let pfx = p_prefix prefixAndSuffix;
          toTheLeft = prefixToTheLeftOfCursor prefixAndSuffix;
          toTheRight = suffixToTheRightOfCursor prefixAndSuffix;
          generatedMiddle = a_insertText autocompletion;
          startIdx0 = startIdx autocompletionMatchup;
          endIdx0 = int (length generatedMiddle);
          startIdx1 = skipTypedSpace toTheLeft generatedMiddle startIdx0;
          startIdx2 = skipStartingNewlines isWindows toTheLeft toTheRight generatedMiddle startIdx1;
          endIdx1 = stopAtSuffixMatch (a_type autocompletion) toTheRight generatedMiddle
                      startIdx2 endIdx0;
          endIdx2 = stopAtNewline isWindows toTheLeft toTheRight generatedMiddle startIdx2 endIdx1;
          completionStr = slice generatedMiddle startIdx2 endIdx2
      in getStringUpToUnbalancedClosingParenthesis completionStr pfx)"

section \<open>Replace range\<close>

record Position =
  lineNumber :: int
  column :: int

record Range =
  startLineNumber :: int
  startColumn :: int
  endLineNumber :: int
  endColumn :: int

definition MAX_SAFE_INTEGER :: int where
  "MAX_SAFE_INTEGER = 9007199254740991"

text \<open>An item of the result of \<^verbatim>\<open>toInlineCompletions\<close>: the text and the range it replaces.\<close>

record InlineCompletion =
  ic_insertText :: string
  ic_range :: Range

text \<open>
  The loop of \<^verbatim>\<open>getIsSubsequence\<close>: \<open>sub\<close> is what is left of the subsequence to find and
  \<open>lastMatchChar\<close> the last character matched, a string of length 0 or 1.
\<close>

fun subsequenceLoop :: "string \<Rightarrow> string \<Rightarrow> string \<Rightarrow> bool \<times> string" where
  "subsequenceLoop [] sub lastMatchChar = (False, lastMatchChar)"
| "subsequenceLoop (c # cs) [] lastMatchChar = (True, lastMatchChar)"
| "subsequenceLoop (c # cs) (x # xs) lastMatchChar =
     (if c = x then (if xs = [] then (True, [c]) else subsequenceLoop cs xs [c])
      else subsequenceLoop cs (x # xs) lastMatchChar)"

definition getIsSubsequence :: "string \<Rightarrow> string \<Rightarrow> bool \<times> string" where
  "getIsSubsequence of' subsequence =
     (if length subsequence = 0 then (True, [])
      else if length of' = 0 then (False, [])
      else subsequenceLoop of' subsequence [])"

definition toInlineCompletions ::
  "bool \<Rightarrow> AutocompletionMatchupBounds \<Rightarrow> Autocompletion \<Rightarrow> PrefixAndSuffixInfo \<Rightarrow> Position
     \<Rightarrow> InlineCompletion list" where
  "toInlineCompletions isWindows autocompletionMatchup autocompletion prefixAndSuffix position =
     (let trimmedInsertText =
            postprocessAutocompletion isWindows autocompletionMatchup autocompletion prefixAndSuffix;
          line = lineNumber position;
          col = column position
      in if a_type autocompletion = SingleLineRedoSuffix
         then (let oldSuffix = suffixToTheRightOfCursor prefixAndSuffix;
                   newSuffix = a_insertText autocompletion;
                   (isSubsequence, lastMatchingChar) =
                     getIsSubsequence (removeAllWhitespace newSuffix) (removeAllWhitespace oldSuffix)
               in if isSubsequence
                  then [\<lparr>ic_insertText = trimmedInsertText,
                         ic_range = \<lparr>startLineNumber = line, startColumn = col,
                                     endLineNumber = line, endColumn = MAX_SAFE_INTEGER\<rparr>\<rparr>]
                  else (let lastMatchupIdx = lastIndexOf trimmedInsertText lastMatchingChar;
                            numCharsToReplace = lastIndexOf oldSuffix lastMatchingChar + 1
                        in [\<lparr>ic_insertText = slice trimmedInsertText 0 (lastMatchupIdx + 1),
                              ic_range = \<lparr>startLineNumber = line, startColumn = col,
                                          endLineNumber = line,
                                          endColumn = col + numCharsToReplace\<rparr>\<rparr>]))
         else [\<lparr>ic_insertText = trimmedInsertText,
                ic_range = \<lparr>startLineNumber = line, startColumn = col,
                            endLineNumber = line, endColumn = col\<rparr>\<rparr>])"

section \<open>Unbalanced closing brackets\<close>

text \<open>
  What the specification calls the first unbalanced closing bracket, in its words, to be
  compared with the two loops of the source: nothing in this section comes from the
  source.

  The stack of open brackets after the text \<open>t\<close> has been read from the stack \<open>stack\<close>: an
  opening bracket is put on it and a closing bracket takes the top off.
\<close>

fun stackAfter :: "string \<Rightarrow> string \<Rightarrow> string" where
  "stackAfter stack [] = stack"
| "stackAfter stack (c # t) =
     (if isOpening c then stackAfter (c # stack) t
      else if isClosing c then stackAfter (tl stack) t
      else stackAfter stack t)"

text \<open>
  The closing bracket at index \<open>i\<close> of \<open>t\<close> is unbalanced from \<open>stack\<close> when, after the text
  before it, no bracket is open or the bracket opened last is not its partner.
\<close>

definition unbalancedFrom :: "string \<Rightarrow> string \<Rightarrow> nat \<Rightarrow> bool" where
  "unbalancedFrom stack t i \<longleftrightarrow>
     i < length t \<and> isClosing (t ! i) \<and>
     (case stackAfter stack (take i t) of
        [] \<Rightarrow> True
      | tp # _ \<Rightarrow> Some tp \<noteq> pairs (t ! i))"

text \<open>
  The seeding as the specification words it: the prefix is read from its first opening
  bracket on, and its brackets go through the stack as the brackets of a text do, every
  closing bracket taking the top off.
\<close>

definition depthStackOfPrefix :: "string \<Rightarrow> string" where
  "depthStackOfPrefix pfx = stackAfter [] (dropWhile (\<lambda>c. \<not> isOpening c) pfx)"

definition unbalancedAfterDepthStack :: "string \<Rightarrow> string \<Rightarrow> nat \<Rightarrow> bool" where
  "unbalancedAfterDepthStack pfx s i \<longleftrightarrow> unbalancedFrom (depthStackOfPrefix pfx) s i"

text \<open>
  The seeding with a closing bracket that stays: the prefix is read from its first opening
  bracket on; an opening bracket is put on the stack; a closing bracket takes the top off
  when the top is its partner, and otherwise is put on the stack itself, where no later
  closing bracket has it as a partner.
\<close>

definition seedBracket :: "string \<Rightarrow> char \<Rightarrow> string" where
  "seedBracket stack b =
     (if isOpening b then b # stack
      else if isClosing b then
        (if stack \<noteq> [] \<and> pairs b = Some (hd stack) then tl stack else b # stack)
      else stack)"

definition seedOfPrefix :: "string \<Rightarrow> string" where
  "seedOfPrefix pfx = foldl seedBracket [] (dropWhile (\<lambda>c. \<not> isOpening c) pfx)"

definition unbalancedAt :: "string \<Rightarrow> string \<Rightarrow> nat \<Rightarrow> bool" where
  "unbalancedAt pfx s i \<longleftrightarrow> unbalancedFrom (seedOfPrefix pfx) s i"

section \<open>Bounded prediction cache\<close>

text \<open>
  The class \<^verbatim>\<open>LRUCache\<close>. The \<^verbatim>\<open>Map\<close> \<open>items\<close> is an association list in insertion order:
  \<^verbatim>\<open>Map.set\<close> on a present key keeps its place, on a new key adds it last. Values are defined
  values, so the test \<^verbatim>\<open>value !== undefined\<close> is the test that the key is present.

  What the dispose callback does lies outside the cache, so the cache records that it
  called it: \<open>trace\<close> lists, in the order of execution, the calls of the callback and the
  calls of \<^verbatim>\<open>items.delete\<close>. \<open>disposeCallback\<close> says whether a callback was given.
\<close>

datatype ('k, 'v) action = CallDispose 'v 'k | ItemsDelete 'k

record ('k, 'v) LRUCache =
  items :: "('k \<times> 'v) list"
  keyOrder :: "'k list"
  maxSize :: int
  disposeCallback :: bool
  trace :: "('k, 'v) action list"

definition LRUCache_new :: "int \<Rightarrow> bool \<Rightarrow> string + ('k, 'v) LRUCache" where
  "LRUCache_new maxSize' disposeCallback' =
     (if maxSize' \<le> 0 then Inl ''Cache size must be greater than 0''
      else Inr \<lparr>items = [], keyOrder = [], maxSize = maxSize',
                disposeCallback = disposeCallback', trace = []\<rparr>)"

definition LRUCache_size :: "('k, 'v) LRUCache \<Rightarrow> nat" where
  "LRUCache_size c = length (items c)"

definition LRUCache_has :: "('k, 'v) LRUCache \<Rightarrow> 'k \<Rightarrow> bool" where
  "LRUCache_has c key \<longleftrightarrow> map_of (items c) key \<noteq> None"

definition callDispose :: "'v \<Rightarrow> 'k \<Rightarrow> ('k, 'v) LRUCache \<Rightarrow> ('k, 'v) LRUCache" where
  "callDispose value key c =
     (if disposeCallback c then c\<lparr>trace := trace c @ [CallDispose value key]\<rparr> else c)"

definition itemsDelete :: "'k \<Rightarrow> ('k, 'v) LRUCache \<Rightarrow> ('k, 'v) LRUCache" where
  "itemsDelete key c =
     c\<lparr>items := AList.delete key (items c), trace := trace c @ [ItemsDelete key]\<rparr>"

text \<open>
  \<^verbatim>\<open>set\<close>. With an empty \<open>keyOrder\<close> the source reads \<^verbatim>\<open>keyOrder[0]\<close> as \<^verbatim>\<open>undefined\<close>, finds
  no value for it, and deletes and shifts nothing.
\<close>

definition LRUCache_set :: "'k \<Rightarrow> 'v \<Rightarrow> ('k, 'v) LRUCache \<Rightarrow> ('k, 'v) LRUCache" where
  "LRUCache_set key value c =
     (let c1 =
        (if LRUCache_has c key then c\<lparr>keyOrder := filter (\<lambda>k. k \<noteq> key) (keyOrder c)\<rparr>
         else if int (LRUCache_size c) \<ge> maxSize c then
           (case keyOrder c of
              [] \<Rightarrow> c
            | key0 # order \<Rightarrow>
                (let c2 = (case map_of (items c) key0 of
                             Some value0 \<Rightarrow> callDispose value0 key0 c
                           | None \<Rightarrow> c)
                 in (itemsDelete key0 c2)\<lparr>keyOrder := order\<rparr>))
         else c)
      in c1\<lparr>items := AList.update key value (items c1), keyOrder := keyOrder c1 @ [key]\<rparr>)"

definition LRUCache_delete :: "'k \<Rightarrow> ('k, 'v) LRUCache \<Rightarrow> ('k, 'v) LRUCache \<times> bool" where
  "LRUCache_delete key c =
     (case map_of (items c) key of
        Some value \<Rightarrow>
          ((itemsDelete key (callDispose value key c))
             \<lparr>keyOrder := filter (\<lambda>k. k \<noteq> key) (keyOrder c)\<rparr>, True)
      | None \<Rightarrow> (c, False))"

definition LRUCache_clear :: "('k, 'v) LRUCache \<Rightarrow> ('k, 'v) LRUCache" where
  "LRUCache_clear c =
     (fold (\<lambda>(key, value). callDispose value key) (items c) c)\<lparr>items := [], keyOrder := []\<rparr>"

text \<open>A sequence of \<^verbatim>\<open>set\<close> calls, one for each key and value of the list, in order.\<close>

definition setAll :: "('k \<times> 'v) list \<Rightarrow> ('k, 'v) LRUCache \<Rightarrow> ('k, 'v) LRUCache" where
  "setAll kvs c = fold (\<lambda>(key, value). LRUCache_set key value) kvs c"

section \<open>Completion-type classifier\<close>

record CompletionOptions =
  predictionType :: AutocompletionPredictionType
  shouldGenerate :: bool
  llmPrefix :: string
  llmSuffix :: string
  stopTokens :: "string list"

text \<open>The prefix and the suffix as the classifier cuts them, to 25 lines each.\<close>

definition windowedPrefix :: "bool \<Rightarrow> string \<Rightarrow> string" where
  "windowedPrefix isWindows pfx =
     join (ln' isWindows) (sliceFrom (split (ln' isWindows) pfx) (- 25))"

definition windowedSuffixLines :: "bool \<Rightarrow> string \<Rightarrow> string list" where
  "windowedSuffixLines isWindows sfx = slice (split (ln' isWindows) sfx) 0 25"

definition getCompletionOptions ::
  "bool \<Rightarrow> PrefixAndSuffixInfo \<Rightarrow> string \<Rightarrow> bool \<Rightarrow> CompletionOptions" where
  "getCompletionOptions isWindows prefixAndSuffix relevantContext justAcceptedAutocompletion =
     (let toTheLeft = prefixToTheLeftOfCursor prefixAndSuffix;
          toTheRight = suffixToTheRightOfCursor prefixAndSuffix;
          sLines = windowedSuffixLines isWindows (p_suffix prefixAndSuffix);
          pfx = windowedPrefix isWindows (p_prefix prefixAndSuffix);
          sfx = join (ln' isWindows) sLines;
          isLineEmpty = (trim toTheLeft = [] \<and> trim toTheRight = []);
          isLinePrefixEmpty = (length (removeAllWhitespace toTheLeft) = 0);
          isLineSuffixEmpty = (length (removeAllWhitespace toTheRight) = 0)
      in if justAcceptedAutocompletion \<and> isLineSuffixEmpty then
           \<lparr>predictionType = MultiLineStartOnNextLine, shouldGenerate = True,
            llmPrefix = pfx @ ln' isWindows, llmSuffix = sfx,
            stopTokens = [ln' isWindows @ ln' isWindows]\<rparr>
         else if isLineEmpty then
           \<lparr>predictionType = SingleLineFillMiddle, shouldGenerate = True,
            llmPrefix = pfx, llmSuffix = sfx, stopTokens = allLinebreakSymbols\<rparr>
         else if length (removeAllWhitespace toTheRight) \<le> 3 then
           (let suffixLinesIgnoringThisLine = sliceFrom sLines 1;
                suffixStringIgnoringThisLine =
                  (if length suffixLinesIgnoringThisLine = 0 then []
                   else ln' isWindows @ join (ln' isWindows) suffixLinesIgnoringThisLine)
            in \<lparr>predictionType = SingleLineRedoSuffix, shouldGenerate = True,
                llmPrefix = pfx, llmSuffix = suffixStringIgnoringThisLine,
                stopTokens = allLinebreakSymbols\<rparr>)
         else if \<not> isLinePrefixEmpty then
           \<lparr>predictionType = SingleLineFillMiddle, shouldGenerate = True,
            llmPrefix = pfx, llmSuffix = sfx, stopTokens = allLinebreakSymbols\<rparr>
         else
           \<lparr>predictionType = DoNotPredict, shouldGenerate = False,
            llmPrefix = pfx, llmSuffix = sfx, stopTokens = []\<rparr>)"

section \<open>Prediction lifecycle\<close>

text \<open>
  \<^verbatim>\<open>extractCodeFromRegular\<close> is imported from \<^verbatim>\<open>../common/helpers/extractCodeFromResult.js\<close>,
  whose text is not at hand. The functions that call it take it as the parameter
  \<open>extractCode\<close>: \<open>extractCode text recentlyAddedTextLen\<close> is the first component of its result.
\<close>

text \<open>
  Modelled from the spec: \<^verbatim>\<open>extractCodeFromRegular\<close> of \<^verbatim>\<open>extractCodeFromResult.js\<close> is missing.
  It extracts the text from any surrounding formatting fences, so a text with no fence
  around it comes back as it is. \<open>noFence\<close> is that behaviour, for the texts of the
  examples, which have no fence.
\<close>

definition noFence :: "string \<Rightarrow> nat \<Rightarrow> string" where
  "noFence text recentlyAddedTextLen = text"

text \<open>\<^verbatim>\<open>processStartAndEndSpaces\<close>: trims all white space except for a single leading and a
  single trailing space.\<close>

definition processStartAndEndSpaces :: "(string \<Rightarrow> nat \<Rightarrow> string) \<Rightarrow> string \<Rightarrow> string" where
  "processStartAndEndSpaces extractCode result =
     (let result1 = extractCode result (length result);
          hasLeadingSpace = startsWith result1 [CHR 0x20];
          hasTrailingSpace = endsWith result1 [CHR 0x20]
      in (if hasLeadingSpace then [CHR 0x20] else [])
           @ trim result1
           @ (if hasTrailingSpace then [CHR 0x20] else []))"

text \<open>
  The state of \<^verbatim>\<open>AutocompleteService\<close>. The cache of a document holds references to
  \<^verbatim>\<open>Autocompletion\<close> objects, which the callbacks of the request change after they are
  cached: \<open>objects\<close> is the store of these objects, in the order of their creation, and a
  reference is an index into it.
\<close>

record AutocompleteService =
  autocompletionId :: nat
  autocompletionsOfDocument :: "string \<rightharpoonup> (nat, nat) LRUCache"
  objects :: "Autocompletion list"
  lastCompletionStart :: nat
  lastCompletionAccept :: nat

definition initialService :: AutocompleteService where
  "initialService =
     \<lparr>autocompletionId = 0, autocompletionsOfDocument = Map.empty, objects = [],
      lastCompletionStart = 0, lastCompletionAccept = 0\<rparr>"

definition objectAt :: "AutocompleteService \<Rightarrow> nat \<Rightarrow> Autocompletion option" where
  "objectAt svc ref = (if ref < length (objects svc) then Some (objects svc ! ref) else None)"

definition updateObject ::
  "nat \<Rightarrow> (Autocompletion \<Rightarrow> Autocompletion) \<Rightarrow> AutocompleteService \<Rightarrow> AutocompleteService" where
  "updateObject ref f svc =
     (if ref < length (objects svc)
      then svc\<lparr>objects := (objects svc)[ref := f (objects svc ! ref)]\<rparr>
      else svc)"

text \<open>The cache of the document is made on the first request for the document, with the
  callback that aborts the request of a disposed prediction.\<close>

definition initCache :: "string \<Rightarrow> AutocompleteService \<Rightarrow> string + AutocompleteService" where
  "initCache docUriStr svc =
     (case autocompletionsOfDocument svc docUriStr of
        Some _ \<Rightarrow> Inr svc
      | None \<Rightarrow>
          (case LRUCache_new MAX_CACHE_SIZE True of
             Inl e \<Rightarrow> Inl e
           | Inr c \<Rightarrow>
               Inr (svc\<lparr>autocompletionsOfDocument :=
                          (autocompletionsOfDocument svc)(docUriStr \<mapsto> c)\<rparr>)))"

text \<open>\<^verbatim>\<open>const justAcceptedAutocompletion = thisTime - this._lastCompletionAccept < 500\<close>\<close>

definition justAcceptedAutocompletion :: "AutocompleteService \<Rightarrow> nat \<Rightarrow> bool" where
  "justAcceptedAutocompletion svc thisTime \<longleftrightarrow>
     int thisTime - int (lastCompletionAccept svc) < 500"

text \<open>
  The creation of a prediction: the object takes the identifier
  \<^verbatim>\<open>this._autocompletionId++\<close>, and its promise is made, which gives it the identifier of
  its request. The result is the reference to the new object. The counter is a JavaScript
  number, which counts exactly from 0 to \<open>2^53\<close>; it is a natural number here.
\<close>

definition newAutocompletion ::
  "string \<Rightarrow> string \<Rightarrow> string \<Rightarrow> string \<Rightarrow> AutocompletionPredictionType \<Rightarrow> nat \<Rightarrow> string option
     \<Rightarrow> AutocompleteService \<Rightarrow> nat \<times> AutocompleteService" where
  "newAutocompletion pfx sfx llmPrefix' llmSuffix' predictionType' now requestId svc =
     (let autocompletion =
            \<lparr>a_id = autocompletionId svc, a_prefix = pfx, a_suffix = sfx,
             a_llmPrefix = llmPrefix', a_llmSuffix = llmSuffix', a_startTime = now,
             a_endTime = None, a_status = Pending, a_type = predictionType',
             a_llmPromise = Some Unsettled, a_insertText = [], a_requestId = requestId,
             a_newlineCount = 0\<rparr>
      in (length (objects svc),
          svc\<lparr>autocompletionId := autocompletionId svc + 1,
              objects := objects svc @ [autocompletion]\<rparr>))"

text \<open>\<^verbatim>\<open>this._autocompletionsOfDocument[docUriStr].set(newAutocompletion.id, newAutocompletion)\<close>\<close>

definition addToCache :: "string \<Rightarrow> nat \<Rightarrow> AutocompleteService \<Rightarrow> string + AutocompleteService" where
  "addToCache docUriStr ref svc =
     (case (autocompletionsOfDocument svc docUriStr, objectAt svc ref) of
        (Some c, Some autocompletion) \<Rightarrow>
          Inr (svc\<lparr>autocompletionsOfDocument :=
                     (autocompletionsOfDocument svc)
                       (docUriStr \<mapsto> LRUCache_set (a_id autocompletion) ref c)\<rparr>)
      | _ \<Rightarrow> Inl ''TypeError'')"

text \<open>\<^verbatim>\<open>this._autocompletionsOfDocument[docUriStr].delete(id)\<close>\<close>

definition deleteFromCache :: "string \<Rightarrow> nat \<Rightarrow> AutocompleteService \<Rightarrow> string + AutocompleteService" where
  "deleteFromCache docUriStr ident svc =
     (case autocompletionsOfDocument svc docUriStr of
        Some c \<Rightarrow>
          Inr (svc\<lparr>autocompletionsOfDocument :=
                     (autocompletionsOfDocument svc)
                       (docUriStr \<mapsto> fst (LRUCache_delete ident c))\<rparr>)
      | None \<Rightarrow> Inl ''TypeError'')"

text \<open>The callbacks of the request and the timer, on the object of the prediction.\<close>

definition onFinalMessage ::
  "bool \<Rightarrow> (string \<Rightarrow> nat \<Rightarrow> string) \<Rightarrow> string \<Rightarrow> nat \<Rightarrow> Autocompletion \<Rightarrow> Autocompletion" where
  "onFinalMessage isWindows extractCode fullText now autocompletion =
     (let a1 = autocompletion\<lparr>a_endTime := Some now, a_status := Finished\<rparr>;
          text = extractCode fullText 0;
          a2 = a1\<lparr>a_insertText := processStartAndEndSpaces extractCode text\<rparr>;
          a3 = (if a_type a2 = MultiLineStartOnNextLine
                then a2\<lparr>a_insertText := ln' isWindows @ a_insertText a2\<rparr>
                else a2)
      in a3\<lparr>a_llmPromise := map_option (resolve (a_insertText a3)) (a_llmPromise a3)\<rparr>)"

definition onError :: "string \<Rightarrow> nat \<Rightarrow> Autocompletion \<Rightarrow> Autocompletion" where
  "onError message now autocompletion =
     autocompletion\<lparr>a_endTime := Some now, a_status := Error,
                    a_llmPromise := map_option (reject message) (a_llmPromise autocompletion)\<rparr>"

definition onAbort :: "Autocompletion \<Rightarrow> Autocompletion" where
  "onAbort autocompletion =
     autocompletion\<lparr>a_llmPromise :=
       map_option (reject ''Aborted autocomplete'') (a_llmPromise autocompletion)\<rparr>"

text \<open>The timer set for \<open>TIMEOUT_TIME\<close> milliseconds when the request is sent: if the request
  has not resolved by then, reject it.\<close>

definition onTimeout :: "Autocompletion \<Rightarrow> Autocompletion" where
  "onTimeout autocompletion =
     (if a_status autocompletion = Pending
      then autocompletion\<lparr>a_llmPromise :=
             map_option (reject ''Timeout receiving message to LLM.'') (a_llmPromise autocompletion)\<rparr>
      else autocompletion)"

text \<open>
  The end of \<^verbatim>\<open>_provideInlineCompletionItems\<close>, which awaits the promise of the new
  prediction: \<open>None\<close> while the promise is not settled; the completions to show once it is
  resolved; no completion, with the prediction deleted from the cache of the document,
  once it is rejected.
\<close>

definition showAutocompletion ::
  "bool \<Rightarrow> string \<Rightarrow> nat \<Rightarrow> PrefixAndSuffixInfo \<Rightarrow> Position \<Rightarrow> AutocompleteService
     \<Rightarrow> (AutocompleteService \<times> InlineCompletion list) option" where
  "showAutocompletion isWindows docUriStr ref prefixAndSuffix position svc =
     (case objectAt svc ref of
        None \<Rightarrow> None
      | Some autocompletion \<Rightarrow>
          (case a_llmPromise autocompletion of
             Some Unsettled \<Rightarrow> None
           | Some (Rejected e) \<Rightarrow>
               (case deleteFromCache docUriStr (a_id autocompletion) svc of
                  Inr svc1 \<Rightarrow> Some (svc1, [])
                | Inl _ \<Rightarrow> None)
           | _ \<Rightarrow>
               Some (svc, toInlineCompletions isWindows
                            \<lparr>startLine = 0, startCharacter = 0, startIdx = 0\<rparr>
                            autocompletion prefixAndSuffix position)))"

text \<open>
  What happens to the service, one event at a time: the cache of a document is made, a
  prediction is created, it is put into the cache of a document, a prediction is deleted
  from the cache of a document, and the callbacks and the timer of a request run. An
  event that throws leaves the state as it is.
\<close>

datatype event =
    InitCache string
  | New string string string string AutocompletionPredictionType nat "string option"
  | AddToCache string nat
  | DeleteFromCache string nat
  | FinalMessage nat string nat
  | ErrorMessage nat string nat
  | Abort nat
  | Timeout nat

definition orUnchanged :: "AutocompleteService \<Rightarrow> string + AutocompleteService \<Rightarrow> AutocompleteService" where
  "orUnchanged svc r = (case r of Inr svc1 \<Rightarrow> svc1 | Inl _ \<Rightarrow> svc)"

fun step :: "bool \<Rightarrow> (string \<Rightarrow> nat \<Rightarrow> string) \<Rightarrow> event \<Rightarrow> AutocompleteService \<Rightarrow> AutocompleteService" where
  "step isWindows extractCode (InitCache docUriStr) svc = orUnchanged svc (initCache docUriStr svc)"
| "step isWindows extractCode (New pfx sfx lp ls ty now requestId) svc =
     snd (newAutocompletion pfx sfx lp ls ty now requestId svc)"
| "step isWindows extractCode (AddToCache docUriStr ref) svc =
     orUnchanged svc (addToCache docUriStr ref svc)"
| "step isWindows extractCode (DeleteFromCache docUriStr ident) svc =
     orUnchanged svc (deleteFromCache docUriStr ident svc)"
| "step isWindows extractCode (FinalMessage ref fullText now) svc =
     updateObject ref (onFinalMessage isWindows extractCode fullText now) svc"
| "step isWindows extractCode (ErrorMessage ref message now) svc =
     updateObject ref (onError message now) svc"
| "step isWindows extractCode (Abort ref) svc = updateObject ref onAbort svc"
| "step isWindows extractCode (Timeout ref) svc = updateObject ref onTimeout svc"

definition run ::
  "bool \<Rightarrow> (string \<Rightarrow> nat \<Rightarrow> string) \<Rightarrow> event list \<Rightarrow> AutocompleteService \<Rightarrow> AutocompleteService" where
  "run isWindows extractCode events svc = fold (step isWindows extractCode) events svc"

text \<open>
  In every cache, the key of an entry is the identifier of the prediction that the entry
  refers to.
\<close>

definition keysAreIds :: "AutocompleteService \<Rightarrow> bool" where
  "keysAreIds svc \<longleftrightarrow>
     (\<forall>d c k r. autocompletionsOfDocument svc d = Some c \<and> (k, r) \<in> set (items c)
        \<longrightarrow> r < length (objects svc) \<and> a_id (objects svc ! r) = k)"

section \<open>Facts about the string primitives\<close>

lemma startsWith_append_self: "startsWith (p @ s) p"
  by (simp add: startsWith_def)

lemma indexOfFrom_prefix: "indexOfFrom (p @ s) p i = int i"
proof (cases "p @ s")
  case Nil
  then show ?thesis by simp
next
  case (Cons a list)
  have "startsWith (p @ s) p" by (rule startsWith_append_self)
  with Cons show ?thesis by simp
qed

lemma indexOf_prefix: "indexOf (p @ s) p = 0"
  by (simp add: indexOf_def indexOfFrom_prefix)

lemma splitAcc_nonempty: "splitAcc s0 ss acc s \<noteq> []"
  by (induction s0 ss acc s rule: splitAcc.induct) simp_all

lemma split_ln_nonempty: "split (ln' isWindows) s \<noteq> []"
  by (simp add: split_def ln'_def allLinebreakSymbols_def splitAcc_nonempty)

lemma slice_0_0: "slice xs 0 0 = []"
  by (simp add: slice_def)

section \<open>Round trip of the matchup engine\<close>

text \<open>
  Claim C1. For every stored prediction with prefix \<open>P\<close> and insertion \<open>S\<close>, the matchup engine
  called with the current prefix \<open>P\<close>, so with nothing typed since the prediction was made,
  succeeds and returns line 0, character 0 and start index 0, on both platforms.
\<close>

theorem matchup_round_trip:
  "getAutocompletionMatchup isWindows (a_prefix autocompletion) autocompletion
     = Some \<lparr>startLine = 0, startCharacter = 0, startIdx = 0\<rparr>"
proof -
  have lines: "0 < length (split (ln' isWindows) (a_insertText autocompletion))"
    using split_ln_nonempty [of isWindows "a_insertText autocompletion"] by simp
  show ?thesis
    unfolding getAutocompletionMatchup_def Let_def
    using lines
    by (simp add: startsWith_append_self indexOf_prefix getIndex_def slice_0_0)
qed

section \<open>Truncation at the first unbalanced closing bracket\<close>

lemma isOpening_not_closing: "isOpening c \<Longrightarrow> \<not> isClosing c"
  by (auto simp: isOpening_def isClosing_def)

lemma sliceFrom_nonneg: "0 \<le> start \<Longrightarrow> sliceFrom xs start = drop (nat start) xs"
  by (auto simp: sliceFrom_def slice_def Let_def min_def)

lemma searchFrom_takeWhile:
  "searchFrom P s i =
     (if \<exists>c\<in>set s. P c then int (i + length (takeWhile (\<lambda>c. \<not> P c) s)) else - 1)"
  by (induction s arbitrary: i) auto

lemma isBracket_includes: "includesStr ''()[]{}'' [c] \<longleftrightarrow> isOpening c \<or> isClosing c"
  by (auto simp: includesStr_def indexOf_def startsWith_def isOpening_def isClosing_def)

lemma processBrackets_foldl:
  "processBrackets (filter (\<lambda>c. includesStr ''()[]{}'' [c]) xs) stack
     = foldl seedBracket stack xs"
proof (induction xs arbitrary: stack)
  case Nil
  then show ?case
    by simp
next
  case (Cons c xs)
  show ?case
  proof (cases "isOpening c \<or> isClosing c")
    case True
    then show ?thesis
      using Cons.IH isOpening_not_closing [of c]
      by (cases stack) (auto simp: isBracket_includes seedBracket_def)
  next
    case False
    then show ?thesis
      using Cons.IH by (simp add: isBracket_includes seedBracket_def)
  qed
qed

text \<open>The first loop of the source seeds the stack as \<open>seedOfPrefix\<close> says.\<close>

lemma seedStack_seedOfPrefix: "seedStack pfx = seedOfPrefix pfx"
proof (cases "\<exists>c\<in>set pfx. isOpening c")
  case True
  then have idx: "search isOpening pfx = int (length (takeWhile (\<lambda>c. \<not> isOpening c) pfx))"
    by (simp add: search_def searchFrom_takeWhile)
  have "sliceFrom pfx (search isOpening pfx) = dropWhile (\<lambda>c. \<not> isOpening c) pfx"
    unfolding idx by (simp add: sliceFrom_nonneg dropWhile_eq_drop)
  then show ?thesis
    using idx by (simp add: seedStack_def seedOfPrefix_def Let_def processBrackets_foldl)
next
  case False
  then have none: "search isOpening pfx = - 1"
    by (simp add: search_def searchFrom_takeWhile)
  from False have rest: "dropWhile (\<lambda>c. \<not> isOpening c) pfx = []"
    by simp
  show ?thesis
    unfolding seedStack_def seedOfPrefix_def Let_def none rest by simp
qed

lemma substring_0: "substring s 0 (int i) = take i s"
  by (simp add: substring_def Let_def min_def max_def)

lemma unbalancedFrom_Suc:
  "unbalancedFrom stack (c # t) (Suc j) = unbalancedFrom (stackAfter stack [c]) t j"
  by (simp add: unbalancedFrom_def split: list.splits)

lemma scanClosing_step:
  "\<not> unbalancedFrom stack (c # rest) 0 \<Longrightarrow>
     scanClosing s i stack (c # rest) = scanClosing s (Suc i) (stackAfter stack [c]) rest"
  by (auto simp: unbalancedFrom_def split: list.splits)

lemma scanClosing_first:
  "unbalancedFrom stack rest j \<Longrightarrow> \<forall>k<j. \<not> unbalancedFrom stack rest k \<Longrightarrow>
     scanClosing s i stack rest = take (i + j) s"
proof (induction rest arbitrary: i stack j)
  case Nil
  then show ?case by (simp add: unbalancedFrom_def)
next
  case (Cons c rest)
  show ?case
  proof (cases j)
    case 0
    with Cons.prems(1) show ?thesis
      by (auto simp: unbalancedFrom_def isOpening_not_closing substring_0 split: list.splits)
  next
    case (Suc j')
    from Cons.prems(2) Suc have not0: "\<not> unbalancedFrom stack (c # rest) 0"
      by blast
    from Cons.prems(1) Suc have here: "unbalancedFrom (stackAfter stack [c]) rest j'"
      by (simp add: unbalancedFrom_Suc)
    from Cons.prems(2) Suc
    have before: "\<forall>k<j'. \<not> unbalancedFrom (stackAfter stack [c]) rest k"
      by (metis unbalancedFrom_Suc Suc_less_eq)
    show ?thesis
      using Cons.IH [OF here before, of "Suc i"] scanClosing_step [OF not0] Suc by simp
  qed
qed

lemma scanClosing_none:
  "\<forall>k<length rest. \<not> unbalancedFrom stack rest k \<Longrightarrow> scanClosing s i stack rest = s"
proof (induction rest arbitrary: i stack)
  case Nil
  then show ?case by simp
next
  case (Cons c rest)
  from Cons.prems have not0: "\<not> unbalancedFrom stack (c # rest) 0"
    by auto
  have later: "\<forall>k<length rest. \<not> unbalancedFrom (stackAfter stack [c]) rest k"
    using Cons.prems by (metis unbalancedFrom_Suc Suc_less_eq length_Cons)
  show ?case
    using Cons.IH [OF later, of "Suc i"] scanClosing_step [OF not0] by simp
qed

lemma bracket_example_crlf:
  "postprocessAutocompletion True \<lparr>startLine = 0, startCharacter = 0, startIdx = 0\<rparr>
     \<lparr>a_id = i, a_prefix = p, a_suffix = sf, a_llmPrefix = lp, a_llmSuffix = ls,
           a_startTime = t0, a_endTime = t1, a_status = st, a_type = ty, a_llmPromise = pr,
           a_insertText = ''return 1; } } else {'', a_requestId = rq, a_newlineCount = nc\<rparr>
     (getPrefixAndSuffixInfo True ''if (x) {'' 8)
   = ''return 1; } ''"
  by (cases ty; hypsubst; code_simp)

lemma bracket_example_lf:
  "postprocessAutocompletion False \<lparr>startLine = 0, startCharacter = 0, startIdx = 0\<rparr>
     \<lparr>a_id = i, a_prefix = p, a_suffix = sf, a_llmPrefix = lp, a_llmSuffix = ls,
           a_startTime = t0, a_endTime = t1, a_status = st, a_type = ty, a_llmPromise = pr,
           a_insertText = ''return 1; } } else {'', a_requestId = rq, a_newlineCount = nc\<rparr>
     (getPrefixAndSuffixInfo False ''if (x) {'' 8)
   = ''return 1; } ''"
  by (cases ty; hypsubst; code_simp)

lemma bracket_example_balanced:
  "list_all (\<lambda>j. \<not> unbalancedAt ''if (x) {'' ''return 1; } } else {'' j) [0..<12]"
  by code_simp

lemma bracket_example_unbalanced: "unbalancedAt ''if (x) {'' ''return 1; } } else {'' 12"
  by code_simp

lemma bracket_example_none: "list_all (\<lambda>j. \<not> unbalancedAt ''f('' ''x)'' j) [0..<2]"
  by code_simp

lemma bracket_example_popped:
  "unbalancedAt ''f(x) + g'' ''y)'' 1 \<and> \<not> unbalancedAt ''f(x) + g'' ''y)'' 0"
  by code_simp

lemma bracket_example_blocked: "unbalancedAt ''((]'' '')'' 0"
  by code_simp

text \<open>
  Claim C2, as the source has it. For every prefix and every completion, the postprocessor
  cuts the completion at the first closing bracket among \<open>)\<close>, \<open>}\<close>, \<open>]\<close> that is unbalanced
  once the stack has been seeded with the brackets of the prefix, from the first opening
  bracket of the prefix on, and leaves the completion as it is when it has no such
  bracket; the completion is the part of the stored insertion between the start and end
  bounds. In the seeding, a closing bracket of the prefix that is not the partner of the
  bracket on top of the stack stays on the stack, so that no closing bracket of the
  completion is balanced by a bracket opened before it. For the prefix \<open>if (x) {\<close> and the
  insertion \<open>return 1; } } else {\<close>, with the cursor at the end of the buffer and nothing
  typed since, the result stops before the second \<open>}\<close>, for every kind of prediction and
  on both platforms.
\<close>

theorem truncation_at_first_unbalanced_closer:
  "(unbalancedAt pfx s k \<and> (\<forall>j<k. \<not> unbalancedAt pfx s j)
      \<longrightarrow> getStringUpToUnbalancedClosingParenthesis s pfx = take k s)
   \<and> ((\<forall>j<length s. \<not> unbalancedAt pfx s j)
      \<longrightarrow> getStringUpToUnbalancedClosingParenthesis s pfx = s)
   \<and> (\<exists>from to.
        postprocessAutocompletion isWindows autocompletionMatchup autocompletion prefixAndSuffix
          = getStringUpToUnbalancedClosingParenthesis
              (slice (a_insertText autocompletion) from to) (p_prefix prefixAndSuffix))
   \<and> postprocessAutocompletion isWindows \<lparr>startLine = 0, startCharacter = 0, startIdx = 0\<rparr>
        \<lparr>a_id = i, a_prefix = p, a_suffix = sf, a_llmPrefix = lp, a_llmSuffix = ls,
           a_startTime = t0, a_endTime = t1, a_status = st, a_type = ty, a_llmPromise = pr,
           a_insertText = ''return 1; } } else {'', a_requestId = rq, a_newlineCount = nc\<rparr>
        (getPrefixAndSuffixInfo isWindows ''if (x) {'' 8)
      = ''return 1; } ''"
proof (intro conjI impI)
  assume "unbalancedAt pfx s k \<and> (\<forall>j<k. \<not> unbalancedAt pfx s j)"
  then show "getStringUpToUnbalancedClosingParenthesis s pfx = take k s"
    unfolding unbalancedAt_def getStringUpToUnbalancedClosingParenthesis_def
              seedStack_seedOfPrefix
    using scanClosing_first [of "seedOfPrefix pfx" s k s 0] by simp
next
  assume "\<forall>j<length s. \<not> unbalancedAt pfx s j"
  then show "getStringUpToUnbalancedClosingParenthesis s pfx = s"
    unfolding unbalancedAt_def getStringUpToUnbalancedClosingParenthesis_def
              seedStack_seedOfPrefix
    using scanClosing_none [of s "seedOfPrefix pfx" s 0] by simp
next
  show "\<exists>from to.
        postprocessAutocompletion isWindows autocompletionMatchup autocompletion prefixAndSuffix
          = getStringUpToUnbalancedClosingParenthesis
              (slice (a_insertText autocompletion) from to) (p_prefix prefixAndSuffix)"
    unfolding postprocessAutocompletion_def Let_def by blast
next
  show "postprocessAutocompletion isWindows \<lparr>startLine = 0, startCharacter = 0, startIdx = 0\<rparr>
        \<lparr>a_id = i, a_prefix = p, a_suffix = sf, a_llmPrefix = lp, a_llmSuffix = ls,
           a_startTime = t0, a_endTime = t1, a_status = st, a_type = ty, a_llmPromise = pr,
           a_insertText = ''return 1; } } else {'', a_requestId = rq, a_newlineCount = nc\<rparr>
        (getPrefixAndSuffixInfo isWindows ''if (x) {'' 8)
      = ''return 1; } ''"
    by (cases isWindows) (simp_all only: bracket_example_crlf bracket_example_lf)
qed

theorem truncation_at_first_unbalanced_closer_witness:
  "unbalancedAt ''if (x) {'' ''return 1; } } else {'' 12
   \<and> getStringUpToUnbalancedClosingParenthesis ''return 1; } } else {'' ''if (x) {''
       = ''return 1; } ''
   \<and> getStringUpToUnbalancedClosingParenthesis ''x)'' ''f('' = ''x)''
   \<and> getStringUpToUnbalancedClosingParenthesis ''y)'' ''f(x) + g'' = ''y''
   \<and> getStringUpToUnbalancedClosingParenthesis '')'' ''((]'' = []"
proof -
  have before: "\<forall>j<12. \<not> unbalancedAt ''if (x) {'' ''return 1; } } else {'' j"
    using bracket_example_balanced by (simp add: list_all_iff)
  have none: "\<forall>j<length ''x)''. \<not> unbalancedAt ''f('' ''x)'' j"
    using bracket_example_none by (simp add: list_all_iff)
  have cut: "getStringUpToUnbalancedClosingParenthesis ''return 1; } } else {'' ''if (x) {''
       = take 12 ''return 1; } } else {''"
    using truncation_at_first_unbalanced_closer
            [of "''if (x) {''" "''return 1; } } else {''" 12]
          bracket_example_unbalanced before
    by blast
  have keep: "getStringUpToUnbalancedClosingParenthesis ''x)'' ''f('' = ''x)''"
    using truncation_at_first_unbalanced_closer [of "''f(''" "''x)''"] none
    by blast
  have first: "\<forall>j<1. \<not> unbalancedAt ''f(x) + g'' ''y)'' j"
    using bracket_example_popped by simp
  have popped: "getStringUpToUnbalancedClosingParenthesis ''y)'' ''f(x) + g'' = take 1 ''y)''"
    using truncation_at_first_unbalanced_closer [of "''f(x) + g''" "''y)''" 1]
          bracket_example_popped first
    by blast
  have blocked: "getStringUpToUnbalancedClosingParenthesis '')'' ''((]'' = take 0 '')''"
    using truncation_at_first_unbalanced_closer [of "''((]''" "'')''" 0]
          bracket_example_blocked
    by blast
  show ?thesis
    using cut keep popped blocked bracket_example_unbalanced by simp
qed

text \<open>
  With the seeding as the specification words it, every closing bracket of the prefix
  taking the top off the stack, the prefix \<open>((]\<close> leaves one \<open>(\<close> open, which balances the
  completion \<open>)\<close>, so that the completion would stay as it is (as it would if the \<open>]\<close>
  were passed over). The source cuts it to the empty string: the \<open>]\<close> of the prefix is on
  top of its stack.
\<close>

theorem unmatched_prefix_closer_blocks:
  "length '')'' = Suc 0
   \<and> \<not> unbalancedAfterDepthStack ''((]'' '')'' 0
   \<and> getStringUpToUnbalancedClosingParenthesis '')'' ''((]'' = []
   \<and> getStringUpToUnbalancedClosingParenthesis '')'' ''((]'' \<noteq> '')''"
  by code_simp

section \<open>Truncation at the suffix of the current line\<close>

lemma lastIndexOfFrom_char:
  "lastIndexOfFrom s [c] i found = found \<or>
   (int i \<le> lastIndexOfFrom s [c] i found
    \<and> lastIndexOfFrom s [c] i found < int i + int (length s)
    \<and> s ! nat (lastIndexOfFrom s [c] i found - int i) = c)"
proof (induction s arbitrary: i found)
  case Nil
  then show ?case by simp
next
  case (Cons x xs)
  let ?found = "if startsWith (x # xs) [c] then int i else found"
  let ?r = "lastIndexOfFrom xs [c] (Suc i) ?found"
  have r: "lastIndexOfFrom (x # xs) [c] i found = ?r"
    by simp
  from Cons.IH [of "Suc i" ?found]
  consider (same) "?r = ?found"
    | (later) "int (Suc i) \<le> ?r" "?r < int (Suc i) + int (length xs)"
              "xs ! nat (?r - int (Suc i)) = c"
    by blast
  then show ?case
  proof cases
    case same
    then show ?thesis
      unfolding r by (auto simp: startsWith_def)
  next
    case later
    have "nat (?r - int i) = Suc (nat (?r - int (Suc i)))"
      using later(1) by simp
    with later show ?thesis
      unfolding r by simp
  qed
qed

lemma lastIndexOf_char_found:
  assumes "lastIndexOf s [c] = r" "0 \<le> r"
  shows "nat r < length s \<and> s ! nat r = c"
  using lastIndexOfFrom_char [of s c 0 "- 1"] assms by (auto simp: lastIndexOf_def)

lemma skipTypedSpace_ge: "startIdx0 \<le> skipTypedSpace toTheLeft generatedMiddle startIdx0"
  by (simp add: skipTypedSpace_def Let_def)

lemma slice_take_drop:
  "0 \<le> start \<Longrightarrow> 0 \<le> r \<Longrightarrow> nat start + nat r < length xs \<Longrightarrow>
     slice xs start (min (int (length xs)) (r + start)) = take (nat r) (drop (nat start) xs)"
  by (auto simp: slice_def Let_def min_def)

text \<open>
  Claim C3, as the source has it. The source makes this cut for a prediction of kind
  \<open>single-line-fill-middle\<close>, not \<open>single-line-redo-suffix\<close>: when the current line has a
  nonblank suffix to the right of the cursor, the postprocessor looks from the end of the
  remaining insertion for the first character \<open>c\<close> of the trimmed suffix, and if \<open>c\<close> is
  found, at index \<open>r\<close>, and is one of the brackets and quotes, the insertion is cut there:
  the result is the first \<open>r\<close> characters of the remaining insertion, cut further at the
  first unbalanced closing bracket. The remaining insertion starts at the start index of
  the matchup, which is not negative, moved over the space that the user has typed.
\<close>

theorem fill_middle_suffix_match_truncation:
  assumes "a_type autocompletion = SingleLineFillMiddle"
      and "trim (suffixToTheRightOfCursor prefixAndSuffix) = c # cs"
      and "0 \<le> startIdx autocompletionMatchup"
      and "start = skipTypedSpace (prefixToTheLeftOfCursor prefixAndSuffix)
                     (a_insertText autocompletion) (startIdx autocompletionMatchup)"
      and "lastIndexOf (sliceFrom (a_insertText autocompletion) start) [c] = r"
      and "0 \<le> r"
      and "c \<in> set bracketsAndQuotes"
    shows "postprocessAutocompletion isWindows autocompletionMatchup autocompletion prefixAndSuffix
           = getStringUpToUnbalancedClosingParenthesis
               (take (nat r) (sliceFrom (a_insertText autocompletion) start))
               (p_prefix prefixAndSuffix)"
proof -
  let ?gm = "a_insertText autocompletion"
  have start0: "0 \<le> start"
    using assms(3,4) skipTypedSpace_ge [of "startIdx autocompletionMatchup"]
    by (metis order_trans)
  have rest: "sliceFrom ?gm start = drop (nat start) ?gm"
    using start0 by (rule sliceFrom_nonneg)
  from lastIndexOf_char_found [OF assms(5,6)] rest
  have inside: "nat r < length (drop (nat start) ?gm)" and at: "drop (nat start) ?gm ! nat r = c"
    by simp_all
  from inside have bound: "nat start + nat r < length ?gm"
    by simp
  have ch: "charAt ?gm (r + start) = Some c"
    using at bound start0 assms(6) by (simp add: charAt_def nat_add_distrib add.commute)
  have s2: "skipStartingNewlines isWindows (prefixToTheLeftOfCursor prefixAndSuffix)
              (suffixToTheRightOfCursor prefixAndSuffix) ?gm start = start"
    using assms(2) by (simp add: skipStartingNewlines_def Let_def)
  have e1: "stopAtSuffixMatch (a_type autocompletion) (suffixToTheRightOfCursor prefixAndSuffix)
              ?gm start (int (length ?gm)) = min (int (length ?gm)) (r + start)"
    using assms(1,2,5,6,7) ch by (simp add: stopAtSuffixMatch_def Let_def)
  have e2: "stopAtNewline isWindows (prefixToTheLeftOfCursor prefixAndSuffix)
              (suffixToTheRightOfCursor prefixAndSuffix) ?gm start e = e" for e
    using assms(2) by (simp add: stopAtNewline_def Let_def)
  show ?thesis
    unfolding postprocessAutocompletion_def Let_def assms(4) [symmetric] s2 e1 e2
    using slice_take_drop [OF start0 assms(6) bound] rest by simp
qed

theorem fill_middle_suffix_match_truncation_witness:
  "postprocessAutocompletion False \<lparr>startLine = 0, startCharacter = 0, startIdx = 0\<rparr>
     \<lparr>a_id = 0, a_prefix = ''foo('', a_suffix = '')'', a_llmPrefix = ''foo('',
        a_llmSuffix = [], a_startTime = 0, a_endTime = Some 1, a_status = Finished,
        a_type = SingleLineFillMiddle, a_llmPromise = Some (Resolved ''a, b)''),
        a_insertText = ''a, b)'', a_requestId = None, a_newlineCount = 0\<rparr>
     (getPrefixAndSuffixInfo False ''foo()'' 4)
   = ''a, b''"
proof -
  let ?a = "\<lparr>a_id = 0, a_prefix = ''foo('', a_suffix = '')'', a_llmPrefix = ''foo('',
        a_llmSuffix = [], a_startTime = 0, a_endTime = Some 1, a_status = Finished,
        a_type = SingleLineFillMiddle, a_llmPromise = Some (Resolved ''a, b)''),
        a_insertText = ''a, b)'', a_requestId = None, a_newlineCount = 0\<rparr>"
  let ?ctx = "getPrefixAndSuffixInfo False ''foo()'' 4"
  let ?m = "\<lparr>startLine = 0, startCharacter = 0, startIdx = 0\<rparr>"
  have h1: "a_type ?a = SingleLineFillMiddle"
    by simp
  have h2: "trim (suffixToTheRightOfCursor ?ctx) = CHR '')'' # []"
    by code_simp
  have h3: "0 \<le> startIdx ?m"
    by simp
  have h4: "0 = skipTypedSpace (prefixToTheLeftOfCursor ?ctx) (a_insertText ?a) (startIdx ?m)"
    by code_simp
  have h5: "lastIndexOf (sliceFrom (a_insertText ?a) 0) [CHR '')''] = 4"
    by code_simp
  have h6: "(0::int) \<le> 4"
    by simp
  have h7: "CHR '')'' \<in> set bracketsAndQuotes"
    by code_simp
  have cut: "getStringUpToUnbalancedClosingParenthesis
               (take (nat 4) (sliceFrom (a_insertText ?a) 0)) (p_prefix ?ctx) = ''a, b''"
    by code_simp
  show ?thesis
    using fill_middle_suffix_match_truncation [OF h1 h2 h3 h4 h5 h6 h7, of False] cut
    by simp
qed

text \<open>
  For a prediction of kind \<open>single-line-redo-suffix\<close> the insertion is not cut: with
  \<open>foo(\<close> before the cursor and \<open>)\<close> after it, and the insertion \<open>a, b)\<close>, the first
  character of the suffix is the bracket \<open>)\<close>, found last at index 4 of the insertion, and
  the postprocessor returns the whole insertion.
\<close>

theorem redo_suffix_not_truncated:
  "a_type \<lparr>a_id = 0, a_prefix = ''foo('', a_suffix = '')'', a_llmPrefix = ''foo('',
        a_llmSuffix = [], a_startTime = 0, a_endTime = Some 1, a_status = Finished,
        a_type = SingleLineRedoSuffix, a_llmPromise = Some (Resolved ''a, b)''),
        a_insertText = ''a, b)'', a_requestId = None, a_newlineCount = 0\<rparr> = SingleLineRedoSuffix
   \<and> trim (suffixToTheRightOfCursor (getPrefixAndSuffixInfo False ''foo()'' 4)) = '')''
   \<and> lastIndexOf ''a, b)'' '')'' = 4
   \<and> CHR '')'' \<in> set bracketsAndQuotes
   \<and> postprocessAutocompletion False \<lparr>startLine = 0, startCharacter = 0, startIdx = 0\<rparr>
        \<lparr>a_id = 0, a_prefix = ''foo('', a_suffix = '')'', a_llmPrefix = ''foo('',
        a_llmSuffix = [], a_startTime = 0, a_endTime = Some 1, a_status = Finished,
        a_type = SingleLineRedoSuffix, a_llmPromise = Some (Resolved ''a, b)''),
        a_insertText = ''a, b)'', a_requestId = None, a_newlineCount = 0\<rparr>
        (getPrefixAndSuffixInfo False ''foo()'' 4)
      = ''a, b)''
   \<and> postprocessAutocompletion False \<lparr>startLine = 0, startCharacter = 0, startIdx = 0\<rparr>
        \<lparr>a_id = 0, a_prefix = ''foo('', a_suffix = '')'', a_llmPrefix = ''foo('',
        a_llmSuffix = [], a_startTime = 0, a_endTime = Some 1, a_status = Finished,
        a_type = SingleLineRedoSuffix, a_llmPromise = Some (Resolved ''a, b)''),
        a_insertText = ''a, b)'', a_requestId = None, a_newlineCount = 0\<rparr>
        (getPrefixAndSuffixInfo False ''foo()'' 4)
      \<noteq> take 4 ''a, b)''"
  by code_simp

section \<open>The cache under a sequence of insertions\<close>

lemma update_fresh: "k \<notin> fst ` set al \<Longrightarrow> AList.update k v al = al @ [(k, v)]"
  by (induction al) auto

lemma LRUCache_set_room:
  assumes "key \<notin> fst ` set (items c)" "int (length (items c)) < maxSize c"
  shows "LRUCache_set key value c
           = c\<lparr>items := items c @ [(key, value)], keyOrder := keyOrder c @ [key]\<rparr>"
proof -
  have "map_of (items c) key = None"
    using assms(1) by (simp add: map_of_eq_None_iff)
  then show ?thesis
    using assms by (simp add: LRUCache_set_def LRUCache_has_def LRUCache_size_def update_fresh)
qed

lemma setAll_snoc: "setAll (kvs @ [(k, v)]) c = LRUCache_set k v (setAll kvs c)"
  by (simp add: setAll_def)

lemma setAll_room:
  assumes "items c = []" "keyOrder c = []"
      and "distinct (map fst kvs)" "int (length kvs) \<le> maxSize c"
  shows "setAll kvs c = c\<lparr>items := kvs, keyOrder := map fst kvs\<rparr>"
  using assms(3,4)
proof (induction kvs rule: rev_induct)
  case Nil
  then show ?case
    using assms(1,2) by (simp add: setAll_def)
next
  case (snoc kv kvs)
  obtain k v where kv: "kv = (k, v)"
    by (cases kv)
  from snoc.prems have d: "distinct (map fst kvs)" and fresh: "k \<notin> fst ` set kvs"
    and len: "int (length kvs) < maxSize c"
    by (auto simp: kv)
  have IH: "setAll kvs c = c\<lparr>items := kvs, keyOrder := map fst kvs\<rparr>"
    using snoc.IH d len by simp
  show ?case
    unfolding kv setAll_snoc IH
    using fresh len by (simp add: LRUCache_set_room)
qed

lemma LRUCache_set_full:
  assumes "distinct (map fst ((k0, v0) # rest))" "key \<notin> fst ` set ((k0, v0) # rest)"
      and "items c = (k0, v0) # rest" "keyOrder c = k0 # map fst rest"
      and "maxSize c \<le> int (length (items c))"
  shows "LRUCache_set key value c
           = c\<lparr>items := rest @ [(key, value)], keyOrder := map fst rest @ [key],
               trace := trace c @ (if disposeCallback c then [CallDispose v0 k0] else [])
                          @ [ItemsDelete k0]\<rparr>"
proof -
  have none: "map_of (items c) key = None"
    using assms(2,3) by (simp add: map_of_eq_None_iff)
  have k0: "k0 \<notin> fst ` set rest"
    using assms(1) by auto
  have fresh: "key \<notin> fst ` set rest"
    using assms(2) by auto
  show ?thesis
    using none assms(3,4,5) k0 fresh
    by (simp add: LRUCache_set_def LRUCache_has_def LRUCache_size_def callDispose_def
          itemsDelete_def update_fresh Let_def)
qed

text \<open>
  Claim C5. A cache is made with capacity \<open>n > 0\<close> and a dispose callback, and \<open>n + 1\<close>
  entries with distinct keys are set, the first of them \<open>(k0, v0)\<close>. Then the size is at
  most \<open>n\<close> after every one of the calls; at the end the cache holds all the entries but the
  first, in their order; and the callback has been called once, on \<open>v0\<close> and \<open>k0\<close>, before
  \<open>k0\<close> was deleted from the items, which is the one deletion.
\<close>

theorem cache_bound:
  assumes "LRUCache_new n True = Inr c0"
      and "distinct (map fst kvs)"
      and "int (length kvs) = n + 1"
      and "kvs = (k0, v0) # rest"
    shows "(\<forall>m \<le> length kvs. int (LRUCache_size (setAll (take m kvs) c0)) \<le> n)
           \<and> items (setAll kvs c0) = rest
           \<and> keyOrder (setAll kvs c0) = map fst rest
           \<and> trace (setAll kvs c0) = [CallDispose v0 k0, ItemsDelete k0]"
proof -
  from assms(1) have n: "0 < n"
    and c0: "c0 = \<lparr>items = [], keyOrder = [], maxSize = n, disposeCallback = True, trace = []\<rparr>"
    by (auto simp: LRUCache_new_def split: if_splits)
  have empty: "items c0 = []" "keyOrder c0 = []" "maxSize c0 = n"
    by (simp_all add: c0)
  have rest_ne: "rest \<noteq> []"
    using assms(3,4) n by auto
  obtain front kl vl where rest: "rest = front @ [(kl, vl)]"
    using rest_ne by (metis rev_exhaust surj_pair)
  let ?init = "(k0, v0) # front"
  have kvs: "kvs = ?init @ [(kl, vl)]"
    using assms(4) rest by simp
  have d_init: "distinct (map fst ?init)"
    using assms(2) kvs by simp
  have len_init: "int (length ?init) = n"
    using assms(3) kvs by simp
  have fresh: "kl \<notin> fst ` set ?init"
    using assms(2) kvs by auto
  have before: "setAll ?init c0 = c0\<lparr>items := ?init, keyOrder := map fst ?init\<rparr>"
    using setAll_room [OF empty(1,2) d_init] len_init empty(3) by simp
  have final: "setAll kvs c0
      = c0\<lparr>items := front @ [(kl, vl)], keyOrder := map fst front @ [kl],
           trace := [CallDispose v0 k0, ItemsDelete k0]\<rparr>"
    unfolding kvs setAll_snoc before
    using LRUCache_set_full
            [OF d_init fresh, of "c0\<lparr>items := ?init, keyOrder := map fst ?init\<rparr>" vl]
          len_init
    by (simp add: c0)
  have size: "int (LRUCache_size (setAll (take m kvs) c0)) \<le> n" if "m \<le> length kvs" for m
  proof (cases "m = length kvs")
    case True
    then show ?thesis
      using final len_init rest by (simp add: LRUCache_size_def)
  next
    case False
    with that have m: "int m \<le> n"
      using assms(3) by simp
    have d: "distinct (map fst (take m kvs))"
      using assms(2) by (simp add: take_map [symmetric])
    have "setAll (take m kvs) c0 = c0\<lparr>items := take m kvs, keyOrder := map fst (take m kvs)\<rparr>"
      using setAll_room [OF empty(1,2) d] m that empty(3) by simp
    then show ?thesis
      using m that by (simp add: LRUCache_size_def)
  qed
  show ?thesis
    using size final rest by simp
qed

theorem cache_bound_witness:
  "items (setAll [(1::nat, ''a''), (2, ''b''), (3, ''c'')]
            \<lparr>items = [], keyOrder = [], maxSize = 2, disposeCallback = True, trace = []\<rparr>)
     = [(2, ''b''), (3, ''c'')]
   \<and> trace (setAll [(1::nat, ''a''), (2, ''b''), (3, ''c'')]
            \<lparr>items = [], keyOrder = [], maxSize = 2, disposeCallback = True, trace = []\<rparr>)
     = [CallDispose ''a'' 1, ItemsDelete 1]"
proof -
  have new: "LRUCache_new 2 True
               = Inr \<lparr>items = ([] :: (nat \<times> string) list), keyOrder = [], maxSize = 2,
                      disposeCallback = True, trace = []\<rparr>"
    by (simp add: LRUCache_new_def)
  have d: "distinct (map fst [(1::nat, ''a''), (2, ''b''), (3, ''c'')])"
    by simp
  have len: "int (length [(1::nat, ''a''), (2, ''b''), (3, ''c'')]) = 2 + 1"
    by simp
  show ?thesis
    using cache_bound [OF new d len refl] by simp
qed

text \<open>
  Claim C10. Setting a key that the cache holds calls no callback and deletes no entry,
  whatever the size of the cache: the trace is as before, the keys of the items are the
  same in the same order, the key has the new value and every other key the value it
  had, the size is as before, and the key moves to the end of \<open>keyOrder\<close>, the most
  recently used place.
\<close>

theorem set_present_key:
  assumes "LRUCache_has c key"
  shows "trace (LRUCache_set key value c) = trace c
         \<and> map fst (items (LRUCache_set key value c)) = map fst (items c)
         \<and> map_of (items (LRUCache_set key value c)) = (map_of (items c))(key \<mapsto> value)
         \<and> keyOrder (LRUCache_set key value c) = filter (\<lambda>k. k \<noteq> key) (keyOrder c) @ [key]
         \<and> LRUCache_size (LRUCache_set key value c) = LRUCache_size c"
proof -
  from assms have "key \<in> set (map fst (items c))"
    by (metis LRUCache_has_def map_of_eq_None_iff set_map)
  then have keys: "map fst (AList.update key value (items c)) = map fst (items c)"
    by (simp add: update_keys)
  have len: "length (AList.update key value (items c)) = length (items c)"
    using keys by (metis length_map)
  show ?thesis
    using assms keys len
    by (simp add: LRUCache_set_def LRUCache_size_def update_conv')
qed

theorem set_present_key_witness:
  "trace (LRUCache_set (1::nat) ''z''
            \<lparr>items = [(1, ''a''), (2, ''b'')], keyOrder = [1, 2], maxSize = 2,
             disposeCallback = True, trace = []\<rparr>) = []
   \<and> items (LRUCache_set (1::nat) ''z''
            \<lparr>items = [(1, ''a''), (2, ''b'')], keyOrder = [1, 2], maxSize = 2,
             disposeCallback = True, trace = []\<rparr>) = [(1, ''z''), (2, ''b'')]
   \<and> keyOrder (LRUCache_set (1::nat) ''z''
            \<lparr>items = [(1, ''a''), (2, ''b'')], keyOrder = [1, 2], maxSize = 2,
             disposeCallback = True, trace = []\<rparr>) = [2, 1]"
proof -
  let ?c = "\<lparr>items = [(1::nat, ''a''), (2, ''b'')], keyOrder = [1, 2], maxSize = 2,
             disposeCallback = True, trace = []\<rparr>"
  have has: "LRUCache_has ?c 1"
    by (simp add: LRUCache_has_def)
  have it: "items (LRUCache_set 1 ''z'' ?c) = [(1, ''z''), (2, ''b'')]"
    by (simp add: LRUCache_set_def LRUCache_has_def)
  show ?thesis
    using set_present_key [OF has, of "''z''"] it by simp
qed

section \<open>Single leading and trailing space\<close>











section \<open>The context extractor on the two platforms\<close>

lemma substring_split: "substring s 0 k @ substringFrom s k = s"
  by (auto simp: substring_def substringFrom_def Let_def min_def max_def)

lemma context_concat:
  "p_prefix (getPrefixAndSuffixInfo isWindows fullText cursorOffset)
     @ p_suffix (getPrefixAndSuffixInfo isWindows fullText cursorOffset) = fullText"
  by (simp add: getPrefixAndSuffixInfo_def Let_def substring_split)

lemma context_lines_lf:
  "prefixLines (getPrefixAndSuffixInfo False fullText cursorOffset)
     = split ''\<newline>'' (p_prefix (getPrefixAndSuffixInfo False fullText cursorOffset))
   \<and> suffixLines (getPrefixAndSuffixInfo False fullText cursorOffset)
     = split ''\<newline>'' (p_suffix (getPrefixAndSuffixInfo False fullText cursorOffset))"
  by (simp add: getPrefixAndSuffixInfo_def Let_def ln'_def allLinebreakSymbols_def)

text \<open>
  Claim C8, at an input where the source departs from it. The text of the buffer comes
  with line feeds, but where \<^verbatim>\<open>isWindows\<close> holds the lines are split at carriage return and
  line feed, which the text never has. With the text \<open>a\<close>, line feed, \<open>b\<close> and the cursor at
  its end, the prefix is one line, and the text to the left of the cursor is all of it,
  where the split at the line feed gives the lines \<open>a\<close> and \<open>b\<close>.
\<close>

theorem context_extractor_crlf_platform:
  "getPrefixAndSuffixInfo True ''a\<newline>b'' 3 =
     \<lparr>p_prefix = ''a\<newline>b'', p_suffix = [], prefixLines = [''a\<newline>b''],
      suffixLines = [[]], prefixToTheLeftOfCursor = ''a\<newline>b'',
      suffixToTheRightOfCursor = []\<rparr>
   \<and> split ''\<newline>'' ''a\<newline>b'' = [''a'', ''b'']"
  by code_simp

section \<open>Identifiers of predictions\<close>

lemma a_id_callbacks:
  "a_id (onFinalMessage isWindows extractCode fullText now a) = a_id a"
  "a_id (onError message now a) = a_id a"
  "a_id (onAbort a) = a_id a"
  "a_id (onTimeout a) = a_id a"
  by (simp_all add: onFinalMessage_def onError_def onAbort_def onTimeout_def Let_def)

lemma map_update_same:
  assumes "\<And>x. g (f x) = g x"
  shows "map g (xs[r := f (xs ! r)]) = map g xs"
  by (metis assms list_update_id map_update)

lemma objects_cache_steps:
  "objects (orUnchanged svc (initCache d svc)) = objects svc"
  "objects (orUnchanged svc (addToCache d ref svc)) = objects svc"
  "objects (orUnchanged svc (deleteFromCache d ident svc)) = objects svc"
  by (auto simp: orUnchanged_def initCache_def addToCache_def deleteFromCache_def
           split: option.splits sum.splits)

lemma counter_cache_steps:
  "autocompletionId (orUnchanged svc (initCache d svc)) = autocompletionId svc"
  "autocompletionId (orUnchanged svc (addToCache d ref svc)) = autocompletionId svc"
  "autocompletionId (orUnchanged svc (deleteFromCache d ident svc)) = autocompletionId svc"
  by (auto simp: orUnchanged_def initCache_def addToCache_def deleteFromCache_def
           split: option.splits sum.splits)

lemma updateObject_ids:
  assumes "\<And>x. a_id (f x) = a_id x"
  shows "map a_id (objects (updateObject ref f svc)) = map a_id (objects svc)"
    and "autocompletionId (updateObject ref f svc) = autocompletionId svc"
  using assms by (simp_all add: updateObject_def map_update_same)

lemma step_ids:
  assumes "map a_id (objects svc) = [0..<autocompletionId svc]"
  shows "map a_id (objects (step isWindows extractCode ev svc))
           = [0..<autocompletionId (step isWindows extractCode ev svc)]"
  using assms
  by (cases ev)
     (simp_all add: newAutocompletion_def Let_def updateObject_ids a_id_callbacks
        objects_cache_steps counter_cache_steps)

lemma set_update_subset: "set (AList.update k v al) \<subseteq> insert (k, v) (set al)"
  by (induction al) auto

lemma set_delete_subset: "set (AList.delete k al) \<subseteq> set al"
  by (auto simp: AList.delete_eq)

lemma items_set_subset: "set (items (LRUCache_set k v c)) \<subseteq> insert (k, v) (set (items c))"
proof -
  have "set (AList.update k v (AList.delete k0 (items c))) \<subseteq> insert (k, v) (set (items c))"
    for k0
    using set_update_subset [of k v "AList.delete k0 (items c)"]
          set_delete_subset [of k0 "items c"]
    by blast
  then show ?thesis
    using set_update_subset [of k v "items c"]
    by (auto simp: LRUCache_set_def Let_def callDispose_def itemsDelete_def
             split: list.splits option.splits)
qed

lemma items_delete_subset: "set (items (fst (LRUCache_delete k c))) \<subseteq> set (items c)"
  using set_delete_subset [of k "items c"]
  by (auto simp: LRUCache_delete_def callDispose_def itemsDelete_def split: option.splits)

lemma step_keys:
  assumes "keysAreIds svc"
  shows "keysAreIds (step isWindows extractCode ev svc)"
proof (cases ev)
  case (InitCache d)
  with assms show ?thesis
    by (auto simp: keysAreIds_def orUnchanged_def initCache_def LRUCache_new_def
                   MAX_CACHE_SIZE_def
             split: option.splits if_splits)
next
  case (New pfx sfx lp ls ty now rq)
  with assms show ?thesis
    by (auto simp: keysAreIds_def newAutocompletion_def Let_def nth_append less_Suc_eq)
next
  case (AddToCache d ref)
  show ?thesis
  proof (cases "addToCache d ref svc")
    case (Inl e)
    with AddToCache assms show ?thesis
      by (simp add: orUnchanged_def)
  next
    case (Inr svc1)
    then obtain c a where c: "autocompletionsOfDocument svc d = Some c"
      and a: "objectAt svc ref = Some a"
      and svc1: "svc1 = svc\<lparr>autocompletionsOfDocument :=
                     (autocompletionsOfDocument svc)(d \<mapsto> LRUCache_set (a_id a) ref c)\<rparr>"
      by (auto simp: addToCache_def split: option.splits)
    from a have ref: "ref < length (objects svc)" "a_id (objects svc ! ref) = a_id a"
      by (auto simp: objectAt_def split: if_splits)
    have "keysAreIds svc1"
      unfolding keysAreIds_def svc1
      using assms c ref items_set_subset [of "a_id a" ref c]
      by (auto simp: keysAreIds_def split: if_splits)
    with AddToCache Inr show ?thesis
      by (simp add: orUnchanged_def)
  qed
next
  case (DeleteFromCache d ident)
  show ?thesis
  proof (cases "autocompletionsOfDocument svc d")
    case None
    with DeleteFromCache assms show ?thesis
      by (simp add: orUnchanged_def deleteFromCache_def)
  next
    case (Some c)
    have "keysAreIds (svc\<lparr>autocompletionsOfDocument :=
                     (autocompletionsOfDocument svc)(d \<mapsto> fst (LRUCache_delete ident c))\<rparr>)"
      unfolding keysAreIds_def
      using assms Some items_delete_subset [of ident c]
      by (auto simp: keysAreIds_def split: if_splits)
    with DeleteFromCache Some show ?thesis
      by (simp add: orUnchanged_def deleteFromCache_def)
  qed
next
  case (FinalMessage ref fullText now)
  with assms show ?thesis
    by (auto simp: keysAreIds_def updateObject_def nth_list_update a_id_callbacks)
next
  case (ErrorMessage ref message now)
  with assms show ?thesis
    by (auto simp: keysAreIds_def updateObject_def nth_list_update a_id_callbacks)
next
  case (Abort ref)
  with assms show ?thesis
    by (auto simp: keysAreIds_def updateObject_def nth_list_update a_id_callbacks)
next
  case (Timeout ref)
  with assms show ?thesis
    by (auto simp: keysAreIds_def updateObject_def nth_list_update a_id_callbacks)
qed

lemma run_snoc:
  "run isWindows extractCode (events @ [ev]) svc
     = step isWindows extractCode ev (run isWindows extractCode events svc)"
  by (simp add: run_def)

lemma run_invariant:
  "map a_id (objects (run isWindows extractCode events initialService))
     = [0..<autocompletionId (run isWindows extractCode events initialService)]
   \<and> keysAreIds (run isWindows extractCode events initialService)"
proof (induction events rule: rev_induct)
  case Nil
  show ?case
    by (simp add: run_def initialService_def keysAreIds_def)
next
  case (snoc ev events)
  then show ?case
    unfolding run_snoc using step_ids step_keys by blast
qed

text \<open>
  Claim C9. The identifiers come from the one counter of the service. In every state that
  the service reaches from its first state, whatever the events and the documents they are
  about: the predictions created so far have the identifiers 0, 1, 2 and so on in the
  order of their creation, so a prediction created later has a greater identifier,
  whichever document it was created for; every entry of every document's cache has as its
  key the identifier of its prediction; and the prediction created next takes the value
  of the counter, which is greater than the identifier of every prediction created so far.
\<close>

theorem identifiers_increase_across_documents:
  assumes "svc = run isWindows extractCode events initialService"
  shows "map a_id (objects svc) = [0..<autocompletionId svc]
         \<and> (\<forall>i j. i < j \<and> j < length (objects svc)
               \<longrightarrow> a_id (objects svc ! i) < a_id (objects svc ! j))
         \<and> (\<forall>d c k r. autocompletionsOfDocument svc d = Some c \<and> (k, r) \<in> set (items c)
               \<longrightarrow> r < length (objects svc) \<and> a_id (objects svc ! r) = k)
         \<and> a_id (objects (snd (newAutocompletion pfx sfx lp ls ty now rq svc))
                   ! fst (newAutocompletion pfx sfx lp ls ty now rq svc))
             = autocompletionId svc
         \<and> (\<forall>i < length (objects svc). a_id (objects svc ! i) < autocompletionId svc)"
proof -
  have ids: "map a_id (objects svc) = [0..<autocompletionId svc]" and keys: "keysAreIds svc"
    using run_invariant [of isWindows extractCode events] assms by simp_all
  have len: "length (objects svc) = autocompletionId svc"
    using ids by (metis length_map length_upt minus_nat.diff_0)
  have nth: "a_id (objects svc ! i) = i" if "i < length (objects svc)" for i
    using ids that len by (metis add_0 nth_map nth_upt)
  have new: "a_id (objects (snd (newAutocompletion pfx sfx lp ls ty now rq svc))
                   ! fst (newAutocompletion pfx sfx lp ls ty now rq svc))
             = autocompletionId svc"
    by (simp add: newAutocompletion_def Let_def)
  have less: "a_id (objects svc ! i) < a_id (objects svc ! j)"
    if "i < j" "j < length (objects svc)" for i j
    using that nth by simp
  have below: "a_id (objects svc ! i) < autocompletionId svc" if "i < length (objects svc)" for i
    using that nth len by simp
  show ?thesis
    using ids keys new less below unfolding keysAreIds_def by blast
qed

theorem identifiers_increase_across_documents_witness:
  "a_id (objects (run False noFence
       [InitCache ''a.ts'', InitCache ''b.ts'',
        New ''x'' [] ''x'' [] SingleLineFillMiddle 10 (Some ''r1''), AddToCache ''a.ts'' 0,
        New ''y'' [] ''y'' [] SingleLineFillMiddle 20 (Some ''r2''), AddToCache ''b.ts'' 1] initialService) ! 0)
   < a_id (objects (run False noFence
       [InitCache ''a.ts'', InitCache ''b.ts'',
        New ''x'' [] ''x'' [] SingleLineFillMiddle 10 (Some ''r1''), AddToCache ''a.ts'' 0,
        New ''y'' [] ''y'' [] SingleLineFillMiddle 20 (Some ''r2''), AddToCache ''b.ts'' 1] initialService) ! 1)"
proof -
  let ?svc = "run False noFence
       [InitCache ''a.ts'', InitCache ''b.ts'',
        New ''x'' [] ''x'' [] SingleLineFillMiddle 10 (Some ''r1''), AddToCache ''a.ts'' 0,
        New ''y'' [] ''y'' [] SingleLineFillMiddle 20 (Some ''r2''), AddToCache ''b.ts'' 1] initialService"
  have len: "length (objects ?svc) = 2"
    by code_simp
  have "(0::nat) < 1 \<and> 1 < length (objects ?svc)"
    using len by simp
  with identifiers_increase_across_documents [OF refl, of False noFence
       "[InitCache ''a.ts'', InitCache ''b.ts'',
        New ''x'' [] ''x'' [] SingleLineFillMiddle 10 (Some ''r1''), AddToCache ''a.ts'' 0,
        New ''y'' [] ''y'' [] SingleLineFillMiddle 20 (Some ''r2''), AddToCache ''b.ts'' 1]"]
  show ?thesis
    by blast
qed

section \<open>Timeout of a request\<close>

lemma LRUCache_delete_absent: "\<not> LRUCache_has (fst (LRUCache_delete key c)) key"
  by (auto simp: LRUCache_delete_def LRUCache_has_def itemsDelete_def callDispose_def
                 delete_conv'
           split: option.splits)

text \<open>
  Claim C4, as the source has it. When the timer of a prediction fires while its status is
  pending and its promise is not settled, the promise is rejected, with the message of the
  timeout, and the status stays pending: the timer does not set it, only the error
  callback of the request sets the status to error. The call that awaits the promise then
  deletes the prediction from the cache of the document and returns no completion, as
  after a failure of the request.
\<close>

theorem timeout_rejects_and_evicts:
  assumes "objectAt svc ref = Some autocompletion"
      and "a_status autocompletion = Pending"
      and "a_llmPromise autocompletion = Some Unsettled"
      and "autocompletionsOfDocument svc docUriStr = Some cache"
      and "svc1 = step isWindows extractCode (Timeout ref) svc"
    shows "objectAt svc1 ref
             = Some (autocompletion\<lparr>a_llmPromise :=
                       Some (Rejected ''Timeout receiving message to LLM.'')\<rparr>)
           \<and> map_option a_status (objectAt svc1 ref) = Some Pending
           \<and> (\<exists>svc2 cache2.
                 showAutocompletion isWindows docUriStr ref prefixAndSuffix position svc1
                   = Some (svc2, [])
                 \<and> autocompletionsOfDocument svc2 docUriStr = Some cache2
                 \<and> \<not> LRUCache_has cache2 (a_id autocompletion)
                 \<and> objects svc2 = objects svc1)"
proof -
  let ?a1 = "autocompletion\<lparr>a_llmPromise :=
               Some (Rejected ''Timeout receiving message to LLM.'')\<rparr>"
  from assms(1) have ref: "ref < length (objects svc)" and at: "objects svc ! ref = autocompletion"
    by (auto simp: objectAt_def split: if_splits)
  have timed: "onTimeout autocompletion = ?a1"
    using assms(2,3) by (simp add: onTimeout_def reject_def)
  have obj: "objectAt svc1 ref = Some ?a1"
    using ref at timed by (simp add: assms(5) updateObject_def objectAt_def)
  have caches: "autocompletionsOfDocument svc1 docUriStr = Some cache"
    using assms(4) by (simp add: assms(5) updateObject_def)
  let ?svc2 = "svc1\<lparr>autocompletionsOfDocument :=
                     (autocompletionsOfDocument svc1)
                       (docUriStr \<mapsto> fst (LRUCache_delete (a_id autocompletion) cache))\<rparr>"
  have "showAutocompletion isWindows docUriStr ref prefixAndSuffix position svc1
          = Some (?svc2, [])"
    using obj caches by (simp add: showAutocompletion_def deleteFromCache_def)
  moreover have "autocompletionsOfDocument ?svc2 docUriStr
                   = Some (fst (LRUCache_delete (a_id autocompletion) cache))"
    by simp
  moreover have "objects ?svc2 = objects svc1"
    by simp
  ultimately show ?thesis
    using obj assms(2) LRUCache_delete_absent [of "a_id autocompletion" cache] by auto
qed

theorem timeout_rejects_and_evicts_witness:
  "map_option a_status
     (objectAt (step False noFence (Timeout 0)
        (run False noFence [InitCache ''a.ts'',
        New ''x'' [] ''x'' [] SingleLineFillMiddle 10 (Some ''r1''),
        AddToCache ''a.ts'' 0] initialService)) 0) = Some Pending
   \<and> map_option snd
       (showAutocompletion False ''a.ts'' 0 (getPrefixAndSuffixInfo False ''x'' 1)
          \<lparr>lineNumber = 1, column = 2\<rparr>
          (step False noFence (Timeout 0)
             (run False noFence [InitCache ''a.ts'',
        New ''x'' [] ''x'' [] SingleLineFillMiddle 10 (Some ''r1''),
        AddToCache ''a.ts'' 0] initialService))) = Some []"
proof -
  let ?svc = "run False noFence [InitCache ''a.ts'',
        New ''x'' [] ''x'' [] SingleLineFillMiddle 10 (Some ''r1''),
        AddToCache ''a.ts'' 0] initialService"
  let ?a = "\<lparr>a_id = 0, a_prefix = ''x'', a_suffix = [], a_llmPrefix = ''x'',
       a_llmSuffix = [], a_startTime = 10, a_endTime = None, a_status = Pending,
       a_type = SingleLineFillMiddle, a_llmPromise = Some Unsettled, a_insertText = [],
       a_requestId = Some ''r1'', a_newlineCount = 0\<rparr>"
  have h1: "objectAt ?svc 0 = Some ?a"
    by code_simp
  have h2: "a_status ?a = Pending"
    by simp
  have h3: "a_llmPromise ?a = Some Unsettled"
    by simp
  have h4: "autocompletionsOfDocument ?svc ''a.ts''
              = Some \<lparr>items = [(0, 0)], keyOrder = [0], maxSize = 20,
                      disposeCallback = True, trace = []\<rparr>"
    by code_simp
  from timeout_rejects_and_evicts
         [where isWindows = False and extractCode = noFence
            and prefixAndSuffix = "getPrefixAndSuffixInfo False ''x'' 1"
            and position = "\<lparr>lineNumber = 1, column = 2\<rparr>",
          OF h1 h2 h3 h4 refl]
  show ?thesis
    by auto
qed

text \<open>
  After the timer has fired on a pending prediction, the status of the prediction is
  pending, not error.
\<close>

theorem timeout_leaves_status_pending:
  "a_status (objects (run False noFence [InitCache ''a.ts'',
        New ''x'' [] ''x'' [] SingleLineFillMiddle 10 (Some ''r1''),
        AddToCache ''a.ts'' 0, Timeout 0] initialService) ! 0) = Pending
   \<and> a_status (objects (run False noFence [InitCache ''a.ts'',
        New ''x'' [] ''x'' [] SingleLineFillMiddle 10 (Some ''r1''),
        AddToCache ''a.ts'' 0, Timeout 0] initialService) ! 0) \<noteq> Error"
  by code_simp

section \<open>Multi-line prediction after an acceptance\<close>

lemma return_result_example:
  "processStartAndEndSpaces noFence (noFence ''return result;'' 0) = ''return result;''"
  by code_simp

lemma return_result_shown:
  "map_option snd
     (showAutocompletion False ''a.ts'' 0 (getPrefixAndSuffixInfo False ''foo();'' 6)
        \<lparr>lineNumber = 1, column = 7\<rparr>
        (run False noFence
          [InitCache ''a.ts'',
           New ''foo();'' [] ''foo();\<newline>'' [] MultiLineStartOnNextLine 10 (Some ''r1''),
           AddToCache ''a.ts'' 0, FinalMessage 0 ''return result;'' 15]
          initialService))
   = Some [\<lparr>ic_insertText = ''\<newline>return result;'',
            ic_range = \<lparr>startLineNumber = 1, startColumn = 7,
                        endLineNumber = 1, endColumn = 7\<rparr>\<rparr>]"
  by code_simp

text \<open>
  With the line break of the platform, \<^verbatim>\<open>_ln\<close>, for the newline: when an acceptance was
  recorded less than 500 milliseconds before the request and the text that the context
  has to the right of the cursor is empty or white space, the classifier chooses
  \<open>multi-line-start-on-next-line\<close>, with the windowed prefix and the line break after it
  for the model and the line break twice as the one stop sequence; and when the request
  of such a prediction succeeds, the line break is put before the stored insertion. Where
  the line break is the line feed, the answer \<open>return result;\<close> is stored as a line feed
  and \<open>return result;\<close>, and that is the insertion shown with the cursor after \<open>foo();\<close>
  at the end of the buffer.
\<close>

lemma multi_line_with_platform_line_break:
  assumes "justAcceptedAutocompletion svc thisTime"
      and "removeAllWhitespace (suffixToTheRightOfCursor prefixAndSuffix) = []"
      and "a_type autocompletion = MultiLineStartOnNextLine"
    shows "getCompletionOptions isWindows prefixAndSuffix relevantContext
             (justAcceptedAutocompletion svc thisTime)
           = \<lparr>predictionType = MultiLineStartOnNextLine, shouldGenerate = True,
              llmPrefix = windowedPrefix isWindows (p_prefix prefixAndSuffix) @ ln' isWindows,
              llmSuffix = join (ln' isWindows)
                            (windowedSuffixLines isWindows (p_suffix prefixAndSuffix)),
              stopTokens = [ln' isWindows @ ln' isWindows]\<rparr>
         \<and> a_insertText (onFinalMessage isWindows extractCode fullText now autocompletion)
             = ln' isWindows @ processStartAndEndSpaces extractCode (extractCode fullText 0)
         \<and> a_status (onFinalMessage isWindows extractCode fullText now autocompletion) = Finished
         \<and> a_insertText (onFinalMessage isWindows noFence ''return result;'' now autocompletion)
             = ln' isWindows @ ''return result;''
         \<and> a_insertText (onFinalMessage False noFence ''return result;'' now autocompletion)
             = ''\<newline>return result;''"
proof -
  have lf: "ln' False = ''\<newline>''"
    by code_simp
  show ?thesis
    using assms return_result_example lf
    by (simp add: getCompletionOptions_def Let_def onFinalMessage_def)
qed

text \<open>
  Claim C6, at an input where the source departs from it. The text of the buffer comes
  with line feeds, and where \<^verbatim>\<open>isWindows\<close> holds the line break \<^verbatim>\<open>_ln\<close> is carriage return
  and line feed. The buffer is \<open>foo();\<close>, line feed, \<open>bar();\<close>, the cursor stands after
  \<open>foo();\<close>, with nothing to its right on its line, and an acceptance was recorded 200
  milliseconds before. Split at the line feed, the text to the right of the cursor is
  empty and the classifier chooses \<open>multi-line-start-on-next-line\<close>. Where \<^verbatim>\<open>isWindows\<close>
  holds, the text to the right of the cursor is the line feed and \<open>bar();\<close>, and the
  classifier chooses \<open>single-line-fill-middle\<close>. And when the request of a prediction of
  kind \<open>multi-line-start-on-next-line\<close> succeeds there with \<open>return result;\<close>, the stored
  insertion starts with carriage return and line feed, not with the line feed alone.
\<close>

theorem multi_line_crlf_platform:
  "justAcceptedAutocompletion
     \<lparr>autocompletionId = 0, autocompletionsOfDocument = Map.empty, objects = [],
            lastCompletionStart = 0, lastCompletionAccept = 1000\<rparr> 1200
   \<and> suffixToTheRightOfCursor (getPrefixAndSuffixInfo False ''foo();\<newline>bar();'' 6) = []
   \<and> predictionType
       (getCompletionOptions False (getPrefixAndSuffixInfo False ''foo();\<newline>bar();'' 6) []
         (justAcceptedAutocompletion
            \<lparr>autocompletionId = 0, autocompletionsOfDocument = Map.empty, objects = [],
            lastCompletionStart = 0, lastCompletionAccept = 1000\<rparr> 1200))
     = MultiLineStartOnNextLine
   \<and> suffixToTheRightOfCursor (getPrefixAndSuffixInfo True ''foo();\<newline>bar();'' 6)
     = ''\<newline>bar();''
   \<and> predictionType
       (getCompletionOptions True (getPrefixAndSuffixInfo True ''foo();\<newline>bar();'' 6) []
         (justAcceptedAutocompletion
            \<lparr>autocompletionId = 0, autocompletionsOfDocument = Map.empty, objects = [],
            lastCompletionStart = 0, lastCompletionAccept = 1000\<rparr> 1200))
     = SingleLineFillMiddle
   \<and> a_insertText
       (onFinalMessage True noFence ''return result;'' 15
          \<lparr>a_id = 0, a_prefix = ''foo();'', a_suffix = ''\<newline>bar();'',
            a_llmPrefix = ''foo();'', a_llmSuffix = ''\<newline>bar();'', a_startTime = 10,
            a_endTime = None, a_status = Pending, a_type = MultiLineStartOnNextLine,
            a_llmPromise = Some Unsettled, a_insertText = [], a_requestId = Some ''r1'',
            a_newlineCount = 0\<rparr>)
     = [CHR 0x0D, CHR 0x0A] @ ''return result;''
   \<and> a_insertText
       (onFinalMessage True noFence ''return result;'' 15
          \<lparr>a_id = 0, a_prefix = ''foo();'', a_suffix = ''\<newline>bar();'',
            a_llmPrefix = ''foo();'', a_llmSuffix = ''\<newline>bar();'', a_startTime = 10,
            a_endTime = None, a_status = Pending, a_type = MultiLineStartOnNextLine,
            a_llmPromise = Some Unsettled, a_insertText = [], a_requestId = Some ''r1'',
            a_newlineCount = 0\<rparr>)
     \<noteq> ''\<newline>return result;''"
  by code_simp

end
